theory Spec2Isabelle
  imports Main
begin

section \<open>ngx-data-to-csv: the service that turns a collection of records into CSV text\<close>

text \<open>
  The development embeds \<^verbatim>\<open>projects/ngx-data-to-csv/src/lib/ngx-data-to-csv.service.ts\<close>
  and the constants of its \<^verbatim>\<open>model\<close> module. The service file holds two listings of
  the class \<^verbatim>\<open>NgxDataToCsvService\<close>. The second listing (the documented one, with the
  helper methods \<^verbatim>\<open>addByteOrderMarkAndTitle\<close>, \<^verbatim>\<open>generateCsvHeader\<close> and
  \<^verbatim>\<open>generateCsvRow\<close>) keeps the source's names here. Where the first listing differs
  (\<^verbatim>\<open>toCsv\<close>, \<^verbatim>\<open>parseJson\<close>, \<^verbatim>\<open>formatCellValue\<close>), its method is embedded under
  the same name with the suffix \<open>1\<close>. \<^verbatim>\<open>getNestedObjectValue\<close> and
  \<^verbatim>\<open>extractUniqueKeys\<close> are the same text in both listings.
\<close>

subsection \<open>Strings and values of the host language\<close>

text \<open>
  A JavaScript string is a sequence of UTF-16 code units; a code unit is a \<open>nat\<close> below
  \<open>65536\<close>. \<open>js\<close> reads an ASCII literal as such a string.
\<close>

type_synonym jsstring = "nat list"

definition js :: "string \<Rightarrow> jsstring" where
  "js s = map of_char s"

text \<open>
  The values the service can meet. A number is an integral value of magnitude at most
  \<open>2 ^ 53\<close>, where every integer is a number of the host and its string is its decimal
  digits; larger integers, fractions, \<open>NaN\<close> and the infinities are floating point
  and are not modelled. An object is the list of its own enumerable properties, each name once, in
  the order \<^verbatim>\<open>for ... in\<close> and \<^verbatim>\<open>JSON.stringify\<close> enumerate them. Property lookup is
  lookup of own properties: names inherited from the built-in prototypes
  (\<^verbatim>\<open>constructor\<close>, \<^verbatim>\<open>toString\<close>, ...) are not modelled.
\<close>

datatype jsval =
    JUndefined
  | JNull
  | JBool bool
  | JNum int
  | JStr jsstring
  | JArr "jsval list"
  | JObj "(jsstring \<times> jsval) list"

datatype error = TypeError | InvalidJSON | InvalidData

text \<open>\<^verbatim>\<open>typeof v === 'object'\<close>, which is also true of \<^verbatim>\<open>null\<close>; and \<^verbatim>\<open>Array.isArray\<close>.\<close>

fun typeof_object :: "jsval \<Rightarrow> bool" where
  "typeof_object JNull = True"
| "typeof_object (JArr xs) = True"
| "typeof_object (JObj ps) = True"
| "typeof_object v = False"

fun isArray :: "jsval \<Rightarrow> bool" where
  "isArray (JArr xs) = True"
| "isArray v = False"

text \<open>The truth value of a value in a condition (\<^verbatim>\<open>!this.data\<close>, \<^verbatim>\<open>if (filename)\<close>).\<close>

fun truthy :: "jsval \<Rightarrow> bool" where
  "truthy JUndefined = False"
| "truthy JNull = False"
| "truthy (JBool b) = b"
| "truthy (JNum n) = (n \<noteq> 0)"
| "truthy (JStr s) = (s \<noteq> [])"
| "truthy (JArr xs) = True"
| "truthy (JObj ps) = True"

text \<open>\<^verbatim>\<open>Array.prototype.join\<close> on an array of strings.\<close>

fun join :: "jsstring \<Rightarrow> jsstring list \<Rightarrow> jsstring" where
  "join sep [] = []"
| "join sep [x] = x"
| "join sep (x # y # ys) = x @ sep @ join sep (y # ys)"

text \<open>Decimal digits of a natural number, and the string of an integral number.\<close>

fun digits :: "nat \<Rightarrow> jsstring" where
  "digits n = (if n < 10 then [48 + n] else digits (n div 10) @ [48 + n mod 10])"

declare digits.simps [simp del]

definition number_to_string :: "int \<Rightarrow> jsstring" where
  "number_to_string n = (if n < 0 then 45 # digits (nat (- n)) else digits (nat n))"

text \<open>
  \<^verbatim>\<open>String(v)\<close>: the generic string conversion. An array prints its elements joined by
  commas, with \<^verbatim>\<open>null\<close> and \<^verbatim>\<open>undefined\<close> elements empty; a plain object prints
  \<^verbatim>\<open>[object Object]\<close>.
\<close>

fun ToString :: "jsval \<Rightarrow> jsstring" where
  "ToString JUndefined = js ''undefined''"
| "ToString JNull = js ''null''"
| "ToString (JBool b) = (if b then js ''true'' else js ''false'')"
| "ToString (JNum n) = number_to_string n"
| "ToString (JStr s) = s"
| "ToString (JArr xs) =
     join (js '','')
       (map (\<lambda>x. case x of JUndefined \<Rightarrow> [] | JNull \<Rightarrow> [] | _ \<Rightarrow> ToString x) xs)"
| "ToString (JObj ps) = js ''[object Object]''"

subsection \<open>\<^verbatim>\<open>JSON.stringify\<close>\<close>

text \<open>
  The host's serialiser, without indentation. A string is quoted: the quote and the
  backslash get a backslash, the control characters their short or \<^verbatim>\<open>\u\<close> escape, and
  a surrogate code unit that is not part of a pair its \<^verbatim>\<open>\u\<close> escape.
\<close>

definition hexdigit :: "nat \<Rightarrow> nat" where
  "hexdigit d = (if d < 10 then 48 + d else 87 + d)"

definition unicode_escape :: "nat \<Rightarrow> jsstring" where
  "unicode_escape c =
     [92, 117, hexdigit (c div 4096 mod 16), hexdigit (c div 256 mod 16),
      hexdigit (c div 16 mod 16), hexdigit (c mod 16)]"

definition is_lead :: "nat \<Rightarrow> bool" where
  "is_lead c = (55296 \<le> c \<and> c \<le> 56319)"

definition is_trail :: "nat \<Rightarrow> bool" where
  "is_trail c = (56320 \<le> c \<and> c \<le> 57343)"

fun quote_units :: "jsstring \<Rightarrow> jsstring" where
  "quote_units [] = []"
| "quote_units (c # cs) =
     (if c = 8 then [92, 98] @ quote_units cs
      else if c = 9 then [92, 116] @ quote_units cs
      else if c = 10 then [92, 110] @ quote_units cs
      else if c = 12 then [92, 102] @ quote_units cs
      else if c = 13 then [92, 114] @ quote_units cs
      else if c = 34 then [92, 34] @ quote_units cs
      else if c = 92 then [92, 92] @ quote_units cs
      else if c < 32 then unicode_escape c @ quote_units cs
      else if is_lead c then
        (case cs of
           [] \<Rightarrow> unicode_escape c
         | d # ds \<Rightarrow>
             if is_trail d then c # d # quote_units ds
             else unicode_escape c @ quote_units cs)
      else if is_trail c then unicode_escape c @ quote_units cs
      else c # quote_units cs)"

definition QuoteJSONString :: "jsstring \<Rightarrow> jsstring" where
  "QuoteJSONString s = [34] @ quote_units s @ [34]"

text \<open>
  The result is \<open>None\<close> where \<^verbatim>\<open>JSON.stringify\<close> returns \<^verbatim>\<open>undefined\<close>. An
  \<^verbatim>\<open>undefined\<close> element of an array is written \<^verbatim>\<open>null\<close>; a property whose value is
  \<^verbatim>\<open>undefined\<close> is left out.
\<close>

fun stringify :: "jsval \<Rightarrow> jsstring option" where
  "stringify JUndefined = None"
| "stringify JNull = Some (js ''null'')"
| "stringify (JBool b) = Some (if b then js ''true'' else js ''false'')"
| "stringify (JNum n) = Some (number_to_string n)"
| "stringify (JStr s) = Some (QuoteJSONString s)"
| "stringify (JArr xs) =
     Some (js ''['' @
       join (js '','')
         (map (\<lambda>x. case stringify x of None \<Rightarrow> js ''null'' | Some t \<Rightarrow> t) xs) @
       js '']'')"
| "stringify (JObj ps) =
     Some (js ''{'' @
       join (js '','')
         (concat (map (\<lambda>(k, v). case stringify v of
                                   None \<Rightarrow> []
                                 | Some t \<Rightarrow> [QuoteJSONString k @ js '':'' @ t]) ps)) @
       js ''}'')"

subsection \<open>Property access\<close>

text \<open>
  \<open>array_index k\<close> is the index a property name denotes: the name has to be the
  decimal numeral of the index (\<^verbatim>\<open>"01"\<close> is not the name of element 1).
\<close>

definition is_digit :: "nat \<Rightarrow> bool" where
  "is_digit c = (48 \<le> c \<and> c \<le> 57)"

definition is_word :: "nat \<Rightarrow> bool" where
  "is_word c = (is_digit c \<or> (65 \<le> c \<and> c \<le> 90) \<or> (97 \<le> c \<and> c \<le> 122) \<or> c = 95)"

definition digits_value :: "jsstring \<Rightarrow> nat" where
  "digits_value k = foldl (\<lambda>n c. 10 * n + (c - 48)) 0 k"

definition array_index :: "jsstring \<Rightarrow> nat option" where
  "array_index k =
     (if k \<noteq> [] \<and> list_all is_digit k \<and> digits (digits_value k) = k
      then Some (digits_value k) else None)"

text \<open>
  \<^verbatim>\<open>current[k]\<close>. Reading a property of \<^verbatim>\<open>undefined\<close> or \<^verbatim>\<open>null\<close> throws a
  \<^verbatim>\<open>TypeError\<close>; a property that is not there reads as \<^verbatim>\<open>undefined\<close>. Arrays and
  strings have their elements and \<^verbatim>\<open>length\<close>.
\<close>

fun prop_get :: "jsval \<Rightarrow> jsstring \<Rightarrow> error + jsval" where
  "prop_get JUndefined k = Inl TypeError"
| "prop_get JNull k = Inl TypeError"
| "prop_get (JBool b) k = Inr JUndefined"
| "prop_get (JNum n) k = Inr JUndefined"
| "prop_get (JStr s) k =
     (case array_index k of
        Some i \<Rightarrow> if i < length s then Inr (JStr [s ! i]) else Inr JUndefined
      | None \<Rightarrow> if k = js ''length'' then Inr (JNum (int (length s))) else Inr JUndefined)"
| "prop_get (JArr xs) k =
     (case array_index k of
        Some i \<Rightarrow> if i < length xs then Inr (xs ! i) else Inr JUndefined
      | None \<Rightarrow> if k = js ''length'' then Inr (JNum (int (length xs))) else Inr JUndefined)"
| "prop_get (JObj ps) k =
     (case map_of ps k of Some v \<Rightarrow> Inr v | None \<Rightarrow> Inr JUndefined)"

subsection \<open>\<^verbatim>\<open>getNestedObjectValue\<close>\<close>

text \<open>\<^verbatim>\<open>key.split('.')\<close>: the pieces between the dots; never the empty list.\<close>

fun split_on :: "nat \<Rightarrow> jsstring \<Rightarrow> jsstring list" where
  "split_on d [] = [[]]"
| "split_on d (c # cs) =
     (if c = d then [] # split_on d cs
      else (c # hd (split_on d cs)) # tl (split_on d cs))"

text \<open>
  \<^verbatim>\<open>key.match(/(\w+)\[(\d+)\]/)\<close>. The pattern is not anchored: the match is the
  leftmost one. At a start position the greedy \<^verbatim>\<open>\w+\<close> takes the whole run of word
  characters, which must be followed by \<^verbatim>\<open>[\<close>, a run of digits and \<^verbatim>\<open>]\<close>; giving
  characters back cannot help, since the next character would then be a word
  character or a digit. The result is the pair of the two groups.
\<close>

definition match_bracket :: "jsstring \<Rightarrow> jsstring \<Rightarrow> (jsstring \<times> jsstring) option" where
  "match_bracket w r' =
     (let d = takeWhile is_digit r'; r'' = dropWhile is_digit r' in
      if d = [] then None
      else (case r'' of
              [] \<Rightarrow> None
            | c' # t \<Rightarrow> (if c' = 93 then Some (w, d) else None)))"

definition match_here :: "jsstring \<Rightarrow> (jsstring \<times> jsstring) option" where
  "match_here s =
     (let w = takeWhile is_word s; r = dropWhile is_word s in
      if w = [] then None
      else (case r of
              [] \<Rightarrow> None
            | c # r' \<Rightarrow> (if c = 91 then match_bracket w r' else None)))"

fun match_segment :: "jsstring \<Rightarrow> (jsstring \<times> jsstring) option" where
  "match_segment [] = None"
| "match_segment (c # cs) =
     (case match_here (c # cs) of
        Some r \<Rightarrow> Some r
      | None \<Rightarrow> match_segment cs)"

text \<open>One turn of the loop over the segments, and the loop.\<close>

definition resolve_segment :: "jsval \<Rightarrow> jsstring \<Rightarrow> error + jsval" where
  "resolve_segment current seg =
     (case match_segment seg of
        Some (name, idx) \<Rightarrow>
          (case prop_get current name of
             Inl e \<Rightarrow> Inl e
           | Inr a \<Rightarrow> prop_get a idx)
      | None \<Rightarrow> prop_get current seg)"

fun resolve_segments :: "jsval \<Rightarrow> jsstring list \<Rightarrow> error + jsval" where
  "resolve_segments current [] = Inr current"
| "resolve_segments current (seg # segs) =
     (case resolve_segment current seg of
        Inl e \<Rightarrow> Inl e
      | Inr c \<Rightarrow> resolve_segments c segs)"

definition getNestedObjectValue :: "jsval \<Rightarrow> jsstring \<Rightarrow> error + jsval" where
  "getNestedObjectValue obj key = resolve_segments obj (split_on 46 key)"

subsection \<open>\<^verbatim>\<open>formatCellValue\<close>\<close>

text \<open>\<^verbatim>\<open>s.replace(/"/g, '""')\<close>.\<close>

definition double_quotes :: "jsstring \<Rightarrow> jsstring" where
  "double_quotes s = concat (map (\<lambda>c. if c = 34 then [34, 34] else [c]) s)"

text \<open>
  The part of \<^verbatim>\<open>formatCellValue\<close> after the value is resolved, up to the string
  conversion: an object or array is replaced by its JSON text.
\<close>

definition cell_string :: "jsval \<Rightarrow> jsstring" where
  "cell_string v =
     ToString (if typeof_object v \<and> v \<noteq> JNull
               then (case stringify v of Some t \<Rightarrow> JStr t | None \<Rightarrow> JUndefined)
               else v)"

text \<open>First listing: the replacement is unconditional.\<close>

definition formatCellValue1 :: "jsval \<Rightarrow> jsstring \<Rightarrow> error + jsstring" where
  "formatCellValue1 obj key =
     (case getNestedObjectValue obj key of
        Inl e \<Rightarrow> Inl e
      | Inr v \<Rightarrow> Inr ([34] @ double_quotes (cell_string v) @ [34]))"

text \<open>Second listing: the replacement is made only if the string contains a quote.\<close>

definition formatCellValue :: "jsval \<Rightarrow> jsstring \<Rightarrow> error + jsstring" where
  "formatCellValue obj key =
     (case getNestedObjectValue obj key of
        Inl e \<Rightarrow> Inl e
      | Inr v \<Rightarrow>
          let strValue = cell_string v;
              finalValue = (if 34 \<in> set strValue then double_quotes strValue else strValue)
          in Inr ([34] @ finalValue @ [34]))"

subsection \<open>\<^verbatim>\<open>extractUniqueKeys\<close>\<close>

text \<open>
  \<^verbatim>\<open>keys.add(k)\<close> on a \<^verbatim>\<open>Set\<close>, which keeps insertion order: the set is the list of
  its elements in that order.
\<close>

definition keys_add :: "jsstring list \<Rightarrow> jsstring \<Rightarrow> jsstring list" where
  "keys_add keys k = (if k \<in> set keys then keys else keys @ [k])"

text \<open>
  The inner function \<^verbatim>\<open>extract(obj, currentKeyPrefix)\<close> is \<open>extract_from\<close>
  (\<open>extract\<close> is a command of the prover), with the set \<^verbatim>\<open>keys\<close> it
  writes to as an argument and result. \<^verbatim>\<open>for (const key in obj)\<close> runs over the
  properties of an object, over the indices of an array and over the indices of a
  string; a number, a boolean, \<^verbatim>\<open>null\<close> and \<^verbatim>\<open>undefined\<close> have no enumerable
  property, so the loop body does not run for them.
  \<^item> \<open>extract_visit\<close> is the loop body for one \<open>key\<close> with \<open>obj[key] = v\<close>;
  \<^item> \<open>extract_props\<close> is the loop over the properties of an object;
  \<^item> \<open>extract_elems\<close> is the loop over the indices of an array, from index \<open>i\<close>;
  \<^item> \<open>extract_items\<close> is the \<^verbatim>\<open>forEach\<close> over an array-valued field, from index
    \<open>i\<close>; its \<open>pk\<close> is \<^verbatim>\<open>currentKeyPrefix + key\<close>.
  In the loop over a string each \<open>obj[key]\<close> is a one-character string, so every
  index is added as a key.
\<close>

function (sequential) extract_from :: "jsval \<Rightarrow> jsstring \<Rightarrow> jsstring list \<Rightarrow> jsstring list"
  and extract_visit :: "jsstring \<Rightarrow> jsval \<Rightarrow> jsstring \<Rightarrow> jsstring list \<Rightarrow> jsstring list"
  and extract_props :: "(jsstring \<times> jsval) list \<Rightarrow> jsstring \<Rightarrow> jsstring list \<Rightarrow> jsstring list"
  and extract_elems :: "jsval list \<Rightarrow> nat \<Rightarrow> jsstring \<Rightarrow> jsstring list \<Rightarrow> jsstring list"
  and extract_items :: "jsval list \<Rightarrow> nat \<Rightarrow> jsstring \<Rightarrow> jsstring list \<Rightarrow> jsstring list"
where
  "extract_from (JObj ps) prefix keys = extract_props ps prefix keys"
| "extract_from (JArr xs) prefix keys = extract_elems xs 0 prefix keys"
| "extract_from (JStr s) prefix keys =
     foldl keys_add keys (map (\<lambda>i. prefix @ digits i) [0..<length s])"
| "extract_from JUndefined prefix keys = keys"
| "extract_from JNull prefix keys = keys"
| "extract_from (JBool b) prefix keys = keys"
| "extract_from (JNum n) prefix keys = keys"
| "extract_visit key (JArr items) prefix keys = extract_items items 0 (prefix @ key) keys"
| "extract_visit key (JObj ps) prefix keys = extract_props ps (prefix @ key @ js ''.'') keys"
| "extract_visit key JUndefined prefix keys = keys_add keys (prefix @ key)"
| "extract_visit key JNull prefix keys = keys_add keys (prefix @ key)"
| "extract_visit key (JBool b) prefix keys = keys_add keys (prefix @ key)"
| "extract_visit key (JNum n) prefix keys = keys_add keys (prefix @ key)"
| "extract_visit key (JStr s) prefix keys = keys_add keys (prefix @ key)"
| "extract_props [] prefix keys = keys"
| "extract_props ((k, v) # ps) prefix keys =
     extract_props ps prefix (extract_visit k v prefix keys)"
| "extract_elems [] i prefix keys = keys"
| "extract_elems (x # xs) i prefix keys =
     extract_elems xs (Suc i) prefix (extract_visit (digits i) x prefix keys)"
| "extract_items [] i pk keys = keys"
| "extract_items (item # items) i pk keys =
     extract_items items (Suc i) pk
       (extract_from item (pk @ js ''['' @ digits i @ js ''].'') keys)"
  by pat_completeness auto
termination
  by (relation "measure (\<lambda>x. case x of
        Inl (Inl (v, _)) \<Rightarrow> size v
      | Inl (Inr (_, v, _)) \<Rightarrow> size v
      | Inr (Inl (ps, _)) \<Rightarrow> size_list (size_prod (\<lambda>_. 0) size) ps
      | Inr (Inr (Inl (xs, _))) \<Rightarrow> size_list size xs
      | Inr (Inr (Inr (xs, _))) \<Rightarrow> size_list size xs)") auto

text \<open>
  \<^verbatim>\<open>arr.forEach(...)\<close> throws a \<^verbatim>\<open>TypeError\<close> when \<open>arr\<close> is not an array (a plain
  object, a string and the other values have no \<^verbatim>\<open>forEach\<close>).
\<close>

definition extractUniqueKeys :: "jsval \<Rightarrow> jsstring \<Rightarrow> error + jsstring list" where
  "extractUniqueKeys arr keyPrefix =
     (case arr of
        JArr items \<Rightarrow> Inr (fold (\<lambda>item keys. extract_from item keyPrefix keys) items [])
      | _ \<Rightarrow> Inl TypeError)"

subsection \<open>Configuration and the state of the service\<close>

text \<open>
  \<^verbatim>\<open>Config\<close>: every field is optional; \<open>None\<close> is a field that is not there, which
  reads as \<^verbatim>\<open>undefined\<close>. A field that is there with the value \<^verbatim>\<open>undefined\<close> is not
  modelled.
\<close>

record Config =
  filename :: "jsstring option"
  fieldSeparator :: "jsstring option"
  showTitle :: "bool option"
  title :: "jsstring option"
  useByteOrderMark :: "bool option"
  noDownload :: "bool option"

definition END_OF_LINE :: jsstring where
  "END_OF_LINE = [13, 10]"

definition ByteOrderMark :: jsstring where
  "ByteOrderMark = [65279]"

definition ConfigDefaults :: Config where
  "ConfigDefaults =
     \<lparr>filename = Some (js ''csv.csv''), fieldSeparator = Some (js '',''),
      showTitle = Some False, title = Some (js ''CSV''),
      useByteOrderMark = Some True, noDownload = Some False\<rparr>"

definition no_config :: Config where
  "no_config =
     \<lparr>filename = None, fieldSeparator = None, showTitle = None, title = None,
      useByteOrderMark = None, noDownload = None\<rparr>"

text \<open>\<^verbatim>\<open>{ ...a, ...b }\<close>: a field of \<open>b\<close> that is there wins.\<close>

definition spread :: "Config \<Rightarrow> Config \<Rightarrow> Config" where
  "spread a b =
     \<lparr>filename = (case filename b of Some x \<Rightarrow> Some x | None \<Rightarrow> filename a),
      fieldSeparator = (case fieldSeparator b of Some x \<Rightarrow> Some x | None \<Rightarrow> fieldSeparator a),
      showTitle = (case showTitle b of Some x \<Rightarrow> Some x | None \<Rightarrow> showTitle a),
      title = (case title b of Some x \<Rightarrow> Some x | None \<Rightarrow> title a),
      useByteOrderMark = (case useByteOrderMark b of Some x \<Rightarrow> Some x | None \<Rightarrow> useByteOrderMark a),
      noDownload = (case noDownload b of Some x \<Rightarrow> Some x | None \<Rightarrow> noDownload a)\<rparr>"

text \<open>How the service reads an optional field: as a condition, and as a string.\<close>

definition flag :: "bool option \<Rightarrow> bool" where
  "flag b = (case b of Some x \<Rightarrow> x | None \<Rightarrow> False)"

definition text_of :: "jsstring option \<Rightarrow> jsstring" where
  "text_of t = (case t of Some x \<Rightarrow> x | None \<Rightarrow> js ''undefined'')"

text \<open>\<^verbatim>\<open>xs.join(sep)\<close> with an optional separator: \<^verbatim>\<open>undefined\<close> joins with a comma.\<close>

definition join_with :: "jsstring option \<Rightarrow> jsstring list \<Rightarrow> jsstring" where
  "join_with sep xs = join (case sep of Some x \<Rightarrow> x | None \<Rightarrow> js '','') xs"

text \<open>
  The instance fields of the service. \<open>options\<close> is declared as always assigned;
  \<^verbatim>\<open>toCsv\<close> assigns it before it reads it.
\<close>

record NgxDataToCsvService =
  data :: jsval
  options :: Config
  csv :: jsstring

text \<open>
  What a call of \<^verbatim>\<open>toCsv\<close> gives its caller: the CSV text, or nothing after a
  download of a file with a name and a content, or nothing at all.
\<close>

datatype outcome =
    Returned jsstring
  | Downloaded jsstring jsstring
  | Nothing

subsection \<open>\<^verbatim>\<open>parseJson\<close>\<close>

text \<open>
  \<^verbatim>\<open>JSON.parse\<close> is the host's: it is the parameter \<open>parse\<close>, with \<open>None\<close> for a
  \<^verbatim>\<open>SyntaxError\<close>. It converts its argument to a string first.
\<close>

type_synonym json_parser = "jsstring \<Rightarrow> jsval option"

text \<open>First listing: a failure is logged and the result is \<^verbatim>\<open>null\<close>.\<close>

definition parseJson1 :: "json_parser \<Rightarrow> jsval \<Rightarrow> jsval" where
  "parseJson1 parse jsonString =
     (case parse (ToString jsonString) of
        None \<Rightarrow> JNull
      | Some parsedData \<Rightarrow>
          if typeof_object parsedData \<and> parsedData \<noteq> JNull then parsedData else JNull)"

text \<open>
  Second listing: a failure throws. The error thrown for a result that is not an object
  is caught by the method's own handler and thrown again as an invalid-JSON error.
\<close>

definition parseJson :: "json_parser \<Rightarrow> jsval \<Rightarrow> error + jsval" where
  "parseJson parse jsonString =
     (case parse (ToString jsonString) of
        None \<Rightarrow> Inl InvalidJSON
      | Some parsedData \<Rightarrow>
          if typeof_object parsedData \<and> parsedData \<noteq> JNull then Inr parsedData
          else Inl InvalidJSON)"

subsection \<open>\<^verbatim>\<open>toCsv\<close>, second listing\<close>

definition addByteOrderMarkAndTitle :: "NgxDataToCsvService \<Rightarrow> NgxDataToCsvService" where
  "addByteOrderMarkAndTitle s =
     (let s1 = (if flag (useByteOrderMark (options s))
                then s\<lparr>csv := csv s @ ByteOrderMark\<rparr> else s)
      in if flag (showTitle (options s1))
         then s1\<lparr>csv := csv s1 @ text_of (title (options s1)) @ [13, 10, 10]\<rparr>
         else s1)"

definition generateCsvHeader :: "jsstring list \<Rightarrow> NgxDataToCsvService \<Rightarrow> NgxDataToCsvService" where
  "generateCsvHeader keys s =
     s\<lparr>csv := csv s @ join_with (fieldSeparator (options s)) keys @ END_OF_LINE\<rparr>"

text \<open>
  \<^verbatim>\<open>keys.map(key => this.formatCellValue(obj, key))\<close>: the cells of one row, or the
  first error thrown.
\<close>

fun row_cells :: "jsval \<Rightarrow> jsstring list \<Rightarrow> error + jsstring list" where
  "row_cells obj [] = Inr []"
| "row_cells obj (key # keys) =
     (case formatCellValue obj key of
        Inl e \<Rightarrow> Inl e
      | Inr c \<Rightarrow>
          (case row_cells obj keys of
             Inl e \<Rightarrow> Inl e
           | Inr cs \<Rightarrow> Inr (c # cs)))"

definition generateCsvRow ::
  "jsval \<Rightarrow> jsstring list \<Rightarrow> NgxDataToCsvService \<Rightarrow> error + NgxDataToCsvService" where
  "generateCsvRow obj keys s =
     (case row_cells obj keys of
        Inl e \<Rightarrow> Inl e
      | Inr row \<Rightarrow>
          Inr (s\<lparr>csv := csv s @ join_with (fieldSeparator (options s)) row @ END_OF_LINE\<rparr>))"

text \<open>
  \<^verbatim>\<open>for (const obj of this.data)\<close>. The elements iterated over: the loop is reached
  after \<^verbatim>\<open>extractUniqueKeys\<close> has returned, so \<open>this.data\<close> is an array; a plain
  object is not iterable. An error leaves the state as it was when it was thrown.
\<close>

definition iterate :: "jsval \<Rightarrow> error + jsval list" where
  "iterate d = (case d of JArr items \<Rightarrow> Inr items | _ \<Rightarrow> Inl TypeError)"

fun generateCsvRows ::
  "jsval list \<Rightarrow> jsstring list \<Rightarrow> NgxDataToCsvService \<Rightarrow> error option \<times> NgxDataToCsvService" where
  "generateCsvRows [] keys s = (None, s)"
| "generateCsvRows (obj # objs) keys s =
     (case generateCsvRow obj keys s of
        Inl e \<Rightarrow> (Some e, s)
      | Inr s' \<Rightarrow> generateCsvRows objs keys s')"

text \<open>
  \<^verbatim>\<open>downloadCsvFile\<close>: the name and the content of the file offered for download.
  \<^verbatim>\<open>filename.replace(/ /g, "_") + ".csv"\<close>.
\<close>

definition download_name :: "jsstring option \<Rightarrow> jsstring" where
  "download_name f =
     text_of (map_option (map (\<lambda>c. if c = 32 then 95 else c)) f) @ js ''.csv''"

definition downloadCsvFile :: "NgxDataToCsvService \<Rightarrow> outcome" where
  "downloadCsvFile s = Downloaded (download_name (filename (options s))) (csv s)"

text \<open>
  The steps of \<^verbatim>\<open>toCsv\<close> after the data is accepted: the options, the prefix, the
  keys, the header, the rows and the delivery. The result is what the caller gets, or
  the error thrown, with the state of the service after the call.
\<close>

definition assemble ::
  "jsstring \<Rightarrow> Config \<Rightarrow> NgxDataToCsvService \<Rightarrow> (error + outcome) \<times> NgxDataToCsvService" where
  "assemble filename_arg config s1 =
     (let s2 = s1\<lparr>options := spread ConfigDefaults config\<rparr>;
          s3 = (if filename_arg \<noteq> []
                then s2\<lparr>options := (options s2)\<lparr>filename := Some filename_arg\<rparr>\<rparr>
                else s2);
          s4 = addByteOrderMarkAndTitle s3
      in case extractUniqueKeys (data s4) [] of
           Inl e \<Rightarrow> (Inl e, s4)
         | Inr keys \<Rightarrow>
             (let s5 = generateCsvHeader keys s4
              in case iterate (data s5) of
                   Inl e \<Rightarrow> (Inl e, s5)
                 | Inr objs \<Rightarrow>
                     (case generateCsvRows objs keys s5 of
                        (Some e, s6) \<Rightarrow> (Inl e, s6)
                      | (None, s6) \<Rightarrow>
                          if csv s6 = [] then (Inl InvalidData, s6)
                          else if flag (noDownload (options s6))
                          then (Inr (Returned (csv s6)), s6)
                          else (Inr (downloadCsvFile s6), s6))))"

definition toCsv ::
  "json_parser \<Rightarrow> NgxDataToCsvService \<Rightarrow> jsval \<Rightarrow> jsstring \<Rightarrow> Config \<Rightarrow>
   (error + outcome) \<times> NgxDataToCsvService" where
  "toCsv parse s dataToTransform filename_arg config =
     (let s0 = s\<lparr>csv := []\<rparr>
      in case (if \<not> typeof_object dataToTransform
               then parseJson parse dataToTransform
               else Inr dataToTransform) of
           Inl e \<Rightarrow> (Inl e, s0)
         | Inr d \<Rightarrow>
             (let s1 = s0\<lparr>data := d\<rparr>
              in if \<not> truthy d then (Inr Nothing, s1)
                 else assemble filename_arg config s1))"

subsection \<open>\<^verbatim>\<open>toCsv\<close>, first listing\<close>

text \<open>
  The lines are collected in the local array \<^verbatim>\<open>csvData\<close> and joined by
  \<^verbatim>\<open>END_OF_LINE\<close> at the end; an empty document is logged and nothing is returned.
  The byte-order mark and the title are added by the same two statements as in
  \<open>addByteOrderMarkAndTitle\<close>.
\<close>

fun row_cells1 :: "jsval \<Rightarrow> jsstring list \<Rightarrow> error + jsstring list" where
  "row_cells1 obj [] = Inr []"
| "row_cells1 obj (key # keys) =
     (case formatCellValue1 obj key of
        Inl e \<Rightarrow> Inl e
      | Inr c \<Rightarrow>
          (case row_cells1 obj keys of
             Inl e \<Rightarrow> Inl e
           | Inr cs \<Rightarrow> Inr (c # cs)))"

fun csvData_rows :: "jsval list \<Rightarrow> jsstring list \<Rightarrow> jsstring option \<Rightarrow> error + jsstring list" where
  "csvData_rows [] keys sep = Inr []"
| "csvData_rows (obj # objs) keys sep =
     (case row_cells1 obj keys of
        Inl e \<Rightarrow> Inl e
      | Inr row \<Rightarrow>
          (case csvData_rows objs keys sep of
             Inl e \<Rightarrow> Inl e
           | Inr lines \<Rightarrow> Inr (join_with sep row # lines)))"

definition assemble1 ::
  "jsstring \<Rightarrow> Config \<Rightarrow> NgxDataToCsvService \<Rightarrow> (error + outcome) \<times> NgxDataToCsvService" where
  "assemble1 filename_arg config s1 =
     (let s2 = s1\<lparr>options := spread ConfigDefaults config\<rparr>;
          s3 = (if filename_arg \<noteq> []
                then s2\<lparr>options := (options s2)\<lparr>filename := Some filename_arg\<rparr>\<rparr>
                else s2);
          s4 = addByteOrderMarkAndTitle s3
      in case extractUniqueKeys (data s4) [] of
           Inl e \<Rightarrow> (Inl e, s4)
         | Inr keys \<Rightarrow>
             (case iterate (data s4) of
                Inl e \<Rightarrow> (Inl e, s4)
              | Inr objs \<Rightarrow>
                  (case csvData_rows objs keys (fieldSeparator (options s4)) of
                     Inl e \<Rightarrow> (Inl e, s4)
                   | Inr lines \<Rightarrow>
                       (let csvData = join_with (fieldSeparator (options s4)) keys # lines;
                            s5 = s4\<lparr>csv := csv s4 @ join END_OF_LINE csvData\<rparr>
                        in if csv s5 = [] then (Inr Nothing, s5)
                           else if flag (noDownload (options s5))
                           then (Inr (Returned (csv s5)), s5)
                           else (Inr (downloadCsvFile s5), s5)))))"

definition toCsv1 ::
  "json_parser \<Rightarrow> NgxDataToCsvService \<Rightarrow> jsval \<Rightarrow> jsstring \<Rightarrow> Config \<Rightarrow>
   (error + outcome) \<times> NgxDataToCsvService" where
  "toCsv1 parse s dataToTransform filename_arg config =
     (let s0 = s\<lparr>csv := []\<rparr>;
          d = (if \<not> typeof_object dataToTransform
               then parseJson1 parse dataToTransform
               else dataToTransform);
          s1 = s0\<lparr>data := d\<rparr>
      in if \<not> truthy d then (Inr Nothing, s1)
         else assemble1 filename_arg config s1)"

subsection \<open>Definitions for the statements\<close>

text \<open>
  Reading a cell body back: a doubled quote stands for one quote, and a quote that is
  not doubled makes the body unreadable.
\<close>

fun undouble :: "jsstring \<Rightarrow> jsstring option" where
  "undouble [] = Some []"
| "undouble [c] = (if c = 34 then None else Some [c])"
| "undouble (c # d # cs) =
     (if c = 34
      then (if d = 34 then map_option ((#) 34) (undouble cs) else None)
      else map_option ((#) c) (undouble (d # cs)))"

text \<open>
  The leaf field paths of a record as the specification states them, to be compared
  with \<open>extract_from\<close>: for each field of a record, an array value gives the paths of
  each element at index \<open>i\<close>, a nested record gives its paths under the prefix extended
  by \<^verbatim>\<open>field.\<close>, and any other value gives the path prefix + field. An element of an
  array that is a record gives its paths under the prefix extended by \<^verbatim>\<open>field[i].\<close>;
  an element that is a primitive gives the one path \<^verbatim>\<open>field[i]\<close> (the
  specification's \<^verbatim>\<open>tags[0]\<close>, \<^verbatim>\<open>tags[1]\<close>); an element that is an array gives the
  paths of its own elements under \<^verbatim>\<open>field[i]\<close>.
  \<^item> \<open>leaf_paths\<close>: the paths of a record under a prefix;
  \<^item> \<open>leaf_field_paths\<close>: the paths of one field;
  \<^item> \<open>leaf_fields_paths\<close>: the paths of the fields of a record, in order;
  \<^item> \<open>leaf_element_paths\<close>: the paths of the elements of an array, from index \<open>i\<close>.
\<close>

function (sequential) leaf_paths :: "jsval \<Rightarrow> jsstring \<Rightarrow> jsstring list"
  and leaf_field_paths :: "jsstring \<Rightarrow> jsval \<Rightarrow> jsstring \<Rightarrow> jsstring list"
  and leaf_fields_paths :: "(jsstring \<times> jsval) list \<Rightarrow> jsstring \<Rightarrow> jsstring list"
  and leaf_element_paths :: "jsval list \<Rightarrow> nat \<Rightarrow> jsstring \<Rightarrow> jsstring list"
where
  "leaf_paths (JObj ps) prefix = leaf_fields_paths ps prefix"
| "leaf_paths v prefix = []"
| "leaf_field_paths key (JArr items) prefix = leaf_element_paths items 0 (prefix @ key)"
| "leaf_field_paths key (JObj ps) prefix = leaf_fields_paths ps (prefix @ key @ js ''.'')"
| "leaf_field_paths key v prefix = [prefix @ key]"
| "leaf_fields_paths [] prefix = []"
| "leaf_fields_paths ((k, v) # ps) prefix =
     leaf_field_paths k v prefix @ leaf_fields_paths ps prefix"
| "leaf_element_paths [] i pk = []"
| "leaf_element_paths (JObj ps # items) i pk =
     leaf_fields_paths ps (pk @ js ''['' @ digits i @ js ''].'') @
     leaf_element_paths items (Suc i) pk"
| "leaf_element_paths (JArr xs # items) i pk =
     leaf_element_paths xs 0 (pk @ js ''['' @ digits i @ js '']'') @
     leaf_element_paths items (Suc i) pk"
| "leaf_element_paths (v # items) i pk =
     (pk @ js ''['' @ digits i @ js '']'') # leaf_element_paths items (Suc i) pk"
  by pat_completeness auto
termination
  by (relation "measure (\<lambda>x. case x of
        Inl (Inl (v, _)) \<Rightarrow> size v
      | Inl (Inr (_, v, _)) \<Rightarrow> size v
      | Inr (Inl (ps, _)) \<Rightarrow> size_list (size_prod (\<lambda>_. 0) size) ps
      | Inr (Inr (xs, _)) \<Rightarrow> size_list size xs)") auto

text \<open>
  The part of those paths that ends in a field of a record: an element of an array
  that is not a record gives no path.
  \<^item> \<open>record_paths\<close>: the paths of a value under a prefix;
  \<^item> \<open>field_paths\<close>: the paths of one field;
  \<^item> \<open>fields_paths\<close>: the paths of the fields of a record, in order;
  \<^item> \<open>element_paths\<close>: the paths of the elements of an array-valued field, from
    index \<open>i\<close>.
\<close>

function (sequential) record_paths :: "jsval \<Rightarrow> jsstring \<Rightarrow> jsstring list"
  and field_paths :: "jsstring \<Rightarrow> jsval \<Rightarrow> jsstring \<Rightarrow> jsstring list"
  and fields_paths :: "(jsstring \<times> jsval) list \<Rightarrow> jsstring \<Rightarrow> jsstring list"
  and element_paths :: "jsval list \<Rightarrow> nat \<Rightarrow> jsstring \<Rightarrow> jsstring list"
where
  "record_paths (JObj ps) prefix = fields_paths ps prefix"
| "record_paths v prefix = []"
| "field_paths key (JArr items) prefix = element_paths items 0 (prefix @ key)"
| "field_paths key (JObj ps) prefix = fields_paths ps (prefix @ key @ js ''.'')"
| "field_paths key v prefix = [prefix @ key]"
| "fields_paths [] prefix = []"
| "fields_paths ((k, v) # ps) prefix = field_paths k v prefix @ fields_paths ps prefix"
| "element_paths [] i pk = []"
| "element_paths (item # items) i pk =
     record_paths item (pk @ js ''['' @ digits i @ js ''].'') @ element_paths items (Suc i) pk"
  by pat_completeness auto
termination
  by (relation "measure (\<lambda>x. case x of
        Inl (Inl (v, _)) \<Rightarrow> size v
      | Inl (Inr (_, v, _)) \<Rightarrow> size v
      | Inr (Inl (ps, _)) \<Rightarrow> size_list (size_prod (\<lambda>_. 0) size) ps
      | Inr (Inr (xs, _)) \<Rightarrow> size_list size xs)") auto

text \<open>A value without enumerable properties: the loop of \<open>extract_from\<close> has no turn.\<close>

fun no_property :: "jsval \<Rightarrow> bool" where
  "no_property JUndefined = True"
| "no_property JNull = True"
| "no_property (JBool b) = True"
| "no_property (JNum n) = True"
| "no_property v = False"

text \<open>The text before the header, and the file name in force, as the options give them.\<close>

definition prefix_text :: "Config \<Rightarrow> jsstring" where
  "prefix_text opts =
     (if flag (useByteOrderMark opts) then ByteOrderMark else []) @
     (if flag (showTitle opts) then text_of (title opts) @ [13, 10, 10] else [])"

definition filename_in_force :: "jsstring \<Rightarrow> Config \<Rightarrow> jsstring" where
  "filename_in_force filename_arg config =
     (if filename_arg \<noteq> [] then filename_arg
      else (case filename config of Some x \<Rightarrow> x | None \<Rightarrow> js ''csv.csv''))"

text \<open>
  The options after the merge and the override, and the two layouts of the document:
  every line ended by \<^verbatim>\<open>END_OF_LINE\<close> (second listing), or the lines joined by it
  (first listing). \<open>aligned\<close> says that the rows are the records, in order, and that the
  cells of each row are the formatted values of the keys, in order (the two listings
  format a cell to the same string, see \<open>formatCellValue_unconditional\<close>).
\<close>

definition options_in_force :: "jsstring \<Rightarrow> Config \<Rightarrow> Config" where
  "options_in_force filename_arg config =
     (spread ConfigDefaults config)\<lparr>filename := Some (filename_in_force filename_arg config)\<rparr>"

definition aligned :: "jsval list \<Rightarrow> jsstring list \<Rightarrow> jsstring list list \<Rightarrow> bool" where
  "aligned objs keys rows =
     list_all2 (\<lambda>obj row. list_all2 (\<lambda>key cell. formatCellValue obj key = Inr cell) keys row)
       objs rows"

definition document_text :: "Config \<Rightarrow> jsstring list \<Rightarrow> jsstring list list \<Rightarrow> jsstring" where
  "document_text opts keys rows =
     prefix_text opts @ join_with (fieldSeparator opts) keys @ END_OF_LINE @
     concat (map (\<lambda>row. join_with (fieldSeparator opts) row @ END_OF_LINE) rows)"

definition document_text1 :: "Config \<Rightarrow> jsstring list \<Rightarrow> jsstring list list \<Rightarrow> jsstring" where
  "document_text1 opts keys rows =
     prefix_text opts @
     join END_OF_LINE (join_with (fieldSeparator opts) keys # map (join_with (fieldSeparator opts)) rows)"

text \<open>The text of the document an outcome carries, if it carries one.\<close>

fun document :: "outcome \<Rightarrow> jsstring option" where
  "document (Returned t) = Some t"
| "document (Downloaded n t) = Some t"
| "document Nothing = None"

subsection \<open>Sample inputs\<close>

text \<open>
  A service that has not been called yet, and a fragment of \<^verbatim>\<open>JSON.parse\<close> that knows
  three texts and rejects every other one.
\<close>

definition new_service :: NgxDataToCsvService where
  "new_service = \<lparr>data = JUndefined, options = no_config, csv = []\<rparr>"

definition parse_sample :: json_parser where
  "parse_sample t =
     (if t = js ''5'' then Some (JNum 5)
      else if t = js ''null'' then Some JNull
      else if t = js ''[]'' then Some (JArr [])
      else None)"

definition flat_records :: jsval where
  "flat_records =
     JArr [JObj [(js ''a'', JNum 1), (js ''b'', JStr (js ''x''))],
           JObj [(js ''a'', JNum 2), (js ''b'', JStr (js ''y''))]]"

definition only_noDownload :: Config where
  "only_noDownload = no_config\<lparr>noDownload := Some True\<rparr>"

text \<open>
  Records of different shapes, a cell value that looks quoted already, and arrays of
  primitives.
\<close>

definition missing_branch :: jsval where
  "missing_branch =
     JArr [JObj [(js ''a'', JObj [(js ''b'', JNum 1)])], JObj [(js ''c'', JNum 2)]]"

definition quoted_looking :: jsval where
  \<open>quoted_looking =
     JObj [(js ''q'', JStr (js ''"hi"'')), (js ''o'', JObj [(js ''k'', JStr (js ''v''))]),
           (js ''n'', JNull)]\<close>

definition number_tags :: jsval where
  "number_tags = JArr [JObj [(js ''tags'', JArr [JNum 1, JNum 2])]]"

definition string_tags :: jsval where
  "string_tags = JArr [JObj [(js ''tags'', JArr [JStr (js ''x''), JStr (js ''yz'')])]]"

definition shorter_tags :: jsval where
  "shorter_tags =
     JArr [JObj [(js ''tags'', JArr [JStr (js ''x''), JStr (js ''y'')])],
           JObj [(js ''tags'', JArr [JStr (js ''x'')])]]"

text \<open>
  A field name with the separator and a quote in it, records with nested objects and
  arrays of objects, a record with an array of numbers, a service left behind by an
  earlier call, and the documents of the two listings.
\<close>

definition odd_field_name :: jsval where
  \<open>odd_field_name = JArr [JObj [(js ''a,"b'', JNum 1)]]\<close>

definition nested_records :: "jsval list" where
  "nested_records =
     [JObj [(js ''name'', JStr (js ''jo'')), (js ''addr'', JObj [(js ''city'', JStr (js ''LA''))])],
      JObj [(js ''user'', JObj [(js ''todos'', JArr [JObj [(js ''id'', JNum 1)], JObj [(js ''id'', JNum 2)]])])]]"

definition id_and_tags :: jsval where
  "id_and_tags = JObj [(js ''id'', JNum 7), (js ''tags'', JArr [JNum 1, JNum 2])]"

definition used_service :: NgxDataToCsvService where
  "used_service = \<lparr>data = JArr [], options = ConfigDefaults, csv = js ''old''\<rparr>"

definition flat_document :: jsstring where
  \<open>flat_document = ByteOrderMark @ js ''a,b'' @ END_OF_LINE @ js ''"1","x"'' @ END_OF_LINE @
                    js ''"2","y"'' @ END_OF_LINE\<close>

definition odd_document :: jsstring where
  \<open>odd_document = ByteOrderMark @ js ''a,"b'' @ END_OF_LINE @ js ''"1"'' @ END_OF_LINE\<close>

definition flat_document1 :: jsstring where
  \<open>flat_document1 = ByteOrderMark @ js ''a,b'' @ END_OF_LINE @ js ''"1","x"'' @ END_OF_LINE @
                    js ''"2","y"''\<close>

definition odd_document1 :: jsstring where
  \<open>odd_document1 = ByteOrderMark @ js ''a,"b'' @ END_OF_LINE @ js ''"1"''\<close>

section \<open>Properties\<close>

text \<open>The definitions that evaluate a call on a concrete input.\<close>

lemmas eval_defs = toCsv_def toCsv1_def assemble_def assemble1_def extractUniqueKeys_def
  addByteOrderMarkAndTitle_def generateCsvHeader_def generateCsvRow_def iterate_def
  formatCellValue_def formatCellValue1_def getNestedObjectValue_def resolve_segment_def
  match_here_def match_bracket_def cell_string_def double_quotes_def keys_add_def
  spread_def ConfigDefaults_def no_config_def flag_def text_of_def join_with_def
  END_OF_LINE_def ByteOrderMark_def number_to_string_def js_def is_word_def is_digit_def
  downloadCsvFile_def download_name_def parseJson_def parseJson1_def array_index_def
  digits_value_def digits.simps new_service_def parse_sample_def flat_records_def only_noDownload_def
  missing_branch_def quoted_looking_def number_tags_def string_tags_def shorter_tags_def
  QuoteJSONString_def is_lead_def is_trail_def unicode_escape_def hexdigit_def

lemmas more_defs = odd_field_name_def nested_records_def used_service_def id_and_tags_def options_in_force_def
  filename_in_force_def document_text_def document_text1_def prefix_text_def aligned_def
  flat_document_def odd_document_def flat_document1_def odd_document1_def

subsection \<open>The scenario of flat records\<close>

text \<open>
  C1, as the code has it. For the collection \<^verbatim>\<open>[{a:1,b:"x"}, {a:2,b:"y"}]\<close>, the
  default configuration except \<^verbatim>\<open>noDownload: true\<close> and an empty file name,
  \<^verbatim>\<open>toCsv\<close> returns the byte-order mark followed by
  \<^verbatim>\<open>a,b\r\n"1","x"\r\n"2","y"\r\n\<close>: the header cells are the key paths without
  quotes, and the header line and every data row, the last one too, end with
  \<^verbatim>\<open>\r\n\<close>. The first listing returns the same text without the last \<^verbatim>\<open>\r\n\<close>,
  since it joins the lines.
\<close>

theorem toCsv_flat_records:
  \<open>fst (toCsv parse s flat_records [] only_noDownload) =
     Inr (Returned (ByteOrderMark @ js ''a,b'' @ END_OF_LINE @ js ''"1","x"'' @ END_OF_LINE @
                    js ''"2","y"'' @ END_OF_LINE)) \<and>
   fst (toCsv1 parse s flat_records [] only_noDownload) =
     Inr (Returned (ByteOrderMark @ js ''a,b'' @ END_OF_LINE @ js ''"1","x"'' @ END_OF_LINE @
                    js ''"2","y"''))\<close>
  by (simp add: eval_defs)

text \<open>The same on a service that has not been called before.\<close>

theorem toCsv_flat_records_witness:
  \<open>fst (toCsv parse_sample new_service flat_records [] only_noDownload) =
     Inr (Returned (ByteOrderMark @ js ''a,b'' @ END_OF_LINE @ js ''"1","x"'' @ END_OF_LINE @
                    js ''"2","y"'' @ END_OF_LINE)) \<and>
   fst (toCsv1 parse_sample new_service flat_records [] only_noDownload) =
     Inr (Returned (ByteOrderMark @ js ''a,b'' @ END_OF_LINE @ js ''"1","x"'' @ END_OF_LINE @
                    js ''"2","y"''))\<close>
  using toCsv_flat_records [of parse_sample new_service] by simp

text \<open>
  C1 as stated expects the header \<^verbatim>\<open>"a","b"\<close> with quoted cells; neither listing
  returns that text.
\<close>

theorem toCsv_flat_records_counterexample:
  \<open>fst (toCsv parse_sample new_service flat_records [] only_noDownload) \<noteq>
     Inr (Returned (ByteOrderMark @ js ''"a","b"'' @ END_OF_LINE @ js ''"1","x"'' @ END_OF_LINE @
                    js ''"2","y"'' @ END_OF_LINE)) \<and>
   fst (toCsv1 parse_sample new_service flat_records [] only_noDownload) \<noteq>
     Inr (Returned (ByteOrderMark @ js ''"a","b"'' @ END_OF_LINE @ js ''"1","x"'' @ END_OF_LINE @
                    js ''"2","y"'' @ END_OF_LINE))\<close>
  by (simp add: eval_defs)

subsection \<open>The cell formatter\<close>

lemma double_quotes_Cons:
  "double_quotes (c # s) = (if c = 34 then [34, 34] else [c]) @ double_quotes s"
  by (simp add: double_quotes_def)

lemma double_quotes_no_quote: "34 \<notin> set s \<Longrightarrow> double_quotes s = s"
  by (induction s) (simp_all add: double_quotes_def)

lemma undouble_other: "c \<noteq> 34 \<Longrightarrow> undouble (c # r) = map_option ((#) c) (undouble r)"
  by (cases r) simp_all

lemma undouble_double_quotes: "undouble (double_quotes s) = Some s"
proof (induction s)
  case Nil
  show ?case by (simp add: double_quotes_def)
next
  case (Cons c s)
  show ?case
  proof (cases "c = 34")
    case True
    then show ?thesis using Cons.IH by (simp add: double_quotes_Cons)
  next
    case False
    then show ?thesis using Cons.IH by (simp add: double_quotes_Cons undouble_other)
  qed
qed

lemma formatCellValue_unconditional:
  "formatCellValue obj key = formatCellValue1 obj key"
  by (simp add: formatCellValue_def formatCellValue1_def Let_def double_quotes_no_quote
      split: sum.splits)

lemma stringify_object: "typeof_object v \<Longrightarrow> v \<noteq> JNull \<Longrightarrow> stringify v = Some (cell_string v)"
  by (cases v) (simp_all add: cell_string_def)

text \<open>
  C5. For every value \<open>v\<close> that resolution hands to the cell formatter, the cell is one
  quote, the string of the value with every quote doubled, and one quote, in both
  listings, whatever the string looks like. Reading the doubled quotes back gives
  the string of the value. That string is the JSON text when the value is a non-null
  object or array, and the literal text \<^verbatim>\<open>null\<close> or \<^verbatim>\<open>undefined\<close> for those
  two values.
\<close>

theorem formatCellValue_quoting:
  assumes "getNestedObjectValue obj key = Inr v"
  shows "formatCellValue obj key = Inr ([34] @ double_quotes (cell_string v) @ [34]) \<and>
         formatCellValue1 obj key = Inr ([34] @ double_quotes (cell_string v) @ [34]) \<and>
         undouble (double_quotes (cell_string v)) = Some (cell_string v) \<and>
         (typeof_object v \<and> v \<noteq> JNull \<longrightarrow> stringify v = Some (cell_string v)) \<and>
         (v = JNull \<longrightarrow> cell_string v = js ''null'') \<and>
         (v = JUndefined \<longrightarrow> cell_string v = js ''undefined'')"
proof -
  have one: "formatCellValue1 obj key = Inr ([34] @ double_quotes (cell_string v) @ [34])"
    using assms by (simp add: formatCellValue1_def)
  have two: "formatCellValue obj key = Inr ([34] @ double_quotes (cell_string v) @ [34])"
    using one by (simp add: formatCellValue_unconditional)
  have three: "undouble (double_quotes (cell_string v)) = Some (cell_string v)"
    by (rule undouble_double_quotes)
  have four: "typeof_object v \<and> v \<noteq> JNull \<longrightarrow> stringify v = Some (cell_string v)"
    by (simp add: stringify_object)
  have five: "v = JNull \<longrightarrow> cell_string v = js ''null''"
    by (simp add: cell_string_def)
  have six: "v = JUndefined \<longrightarrow> cell_string v = js ''undefined''"
    by (simp add: cell_string_def)
  from one two three four five six show ?thesis
    by blast
qed

text \<open>
  A string that looks quoted already, \<^verbatim>\<open>"hi"\<close>, becomes \<^verbatim>\<open>"""hi"""\<close>; the
  object \<^verbatim>\<open>{k:"v"}\<close> becomes \<^verbatim>\<open>"{""k"":""v""}"\<close>; \<^verbatim>\<open>null\<close> becomes
  \<^verbatim>\<open>"null"\<close>.
\<close>

theorem formatCellValue_quoting_witness:
  \<open>formatCellValue quoted_looking (js ''q'') = Inr (js ''"""hi"""'') \<and>
   formatCellValue1 quoted_looking (js ''q'') = Inr (js ''"""hi"""'') \<and>
   undouble (js ''""hi""'') = Some (js ''"hi"'') \<and>
   formatCellValue quoted_looking (js ''o'') = Inr (js ''"{""k"":""v""}"'') \<and>
   stringify (JObj [(js ''k'', JStr (js ''v''))]) = Some (js ''{"k":"v"}'') \<and>
   formatCellValue quoted_looking (js ''n'') = Inr (js ''"null"'')\<close>
proof -
  have q: "getNestedObjectValue quoted_looking (js ''q'') = Inr (JStr [34, 104, 105, 34])"
    by (simp add: eval_defs)
  have o: "getNestedObjectValue quoted_looking (js ''o'') = Inr (JObj [(js ''k'', JStr (js ''v''))])"
    by (simp add: eval_defs)
  have n: "getNestedObjectValue quoted_looking (js ''n'') = Inr JNull"
    by (simp add: eval_defs)
  have Q: "formatCellValue quoted_looking (js ''q'') =
        Inr ([34] @ double_quotes (cell_string (JStr [34, 104, 105, 34])) @ [34])"
      "formatCellValue1 quoted_looking (js ''q'') =
        Inr ([34] @ double_quotes (cell_string (JStr [34, 104, 105, 34])) @ [34])"
    using formatCellValue_quoting [OF q] by blast+
  have O: "formatCellValue quoted_looking (js ''o'') =
        Inr ([34] @ double_quotes (cell_string (JObj [(js ''k'', JStr (js ''v''))])) @ [34])"
      "stringify (JObj [(js ''k'', JStr (js ''v''))]) =
        Some (cell_string (JObj [(js ''k'', JStr (js ''v''))]))"
    using formatCellValue_quoting [OF o] by simp_all
  have N: "formatCellValue quoted_looking (js ''n'') =
        Inr ([34] @ double_quotes (cell_string JNull) @ [34])"
    using formatCellValue_quoting [OF n] by blast
  show ?thesis
    unfolding Q O N by (simp add: eval_defs)
qed

subsection \<open>Key paths that do not resolve\<close>

lemma split_on_no_sep: "d \<notin> set s \<Longrightarrow> split_on d s = [s]"
  by (induction s) simp_all

lemma absent_field_undefined:
  "map_of ps key = None \<Longrightarrow> 46 \<notin> set key \<Longrightarrow> match_segment key = None \<Longrightarrow>
   getNestedObjectValue (JObj ps) key = Inr JUndefined"
  by (simp add: getNestedObjectValue_def split_on_no_sep resolve_segment_def)

lemma resolve_undefined_throws: "resolve_segments JUndefined (seg # segs) = Inl TypeError"
  by (simp add: resolve_segment_def split: option.splits)

text \<open>
  C2, as the code has it. When the resolution of a key path against a record ends in
  \<^verbatim>\<open>undefined\<close> (a field or an index at the end of the path is not there), the cell is
  the quoted text \<^verbatim>\<open>"undefined"\<close> in both listings, not an empty cell, and the row
  goes on with the cells of the other keys.
\<close>

theorem undefined_cell:
  assumes "getNestedObjectValue obj key = Inr JUndefined"
  shows \<open>formatCellValue obj key = Inr (js ''"undefined"'') \<and>
         formatCellValue1 obj key = Inr (js ''"undefined"'') \<and>
         (\<forall>cells. row_cells obj keys = Inr cells \<longrightarrow>
            row_cells obj (key # keys) = Inr (js ''"undefined"'' # cells))\<close>
proof -
  have one: \<open>formatCellValue1 obj key = Inr (js ''"undefined"'')\<close>
    using assms by (simp add: formatCellValue1_def cell_string_def double_quotes_def js_def)
  have two: \<open>formatCellValue obj key = Inr (js ''"undefined"'')\<close>
    using assms by (simp add: formatCellValue_def cell_string_def double_quotes_def js_def)
  from one two show ?thesis by simp
qed

text \<open>The record \<^verbatim>\<open>{b:2}\<close> under the keys \<^verbatim>\<open>a\<close> and \<^verbatim>\<open>b\<close>.\<close>

theorem undefined_cell_witness:
  \<open>formatCellValue (JObj [(js ''b'', JNum 2)]) (js ''a'') = Inr (js ''"undefined"'') \<and>
   formatCellValue1 (JObj [(js ''b'', JNum 2)]) (js ''a'') = Inr (js ''"undefined"'') \<and>
   row_cells (JObj [(js ''b'', JNum 2)]) [js ''a'', js ''b''] = Inr [js ''"undefined"'', js ''"2"'']\<close>
proof -
  have r: "getNestedObjectValue (JObj [(js ''b'', JNum 2)]) (js ''a'') = Inr JUndefined"
    by (rule absent_field_undefined) (simp_all add: eval_defs)
  have c: \<open>row_cells (JObj [(js ''b'', JNum 2)]) [js ''b''] = Inr [js ''"2"'']\<close>
    by (simp add: eval_defs)
  show ?thesis
    using undefined_cell [OF r, of "[js ''b'']"] c by simp
qed

text \<open>
  C2 as stated fails twice. For \<^verbatim>\<open>[{a:{b:1}}, {c:2}]\<close> the key path \<^verbatim>\<open>a.b\<close> meets
  the second record, where \<^verbatim>\<open>a\<close> is absent: reading \<^verbatim>\<open>b\<close> of \<^verbatim>\<open>undefined\<close> throws
  and the call fails. And the cell of an absent field is not the empty quoted cell.
\<close>

theorem missing_branch_counterexample:
  \<open>fst (toCsv parse_sample new_service missing_branch [] only_noDownload) = Inl TypeError \<and>
   fst (toCsv1 parse_sample new_service missing_branch [] only_noDownload) = Inl TypeError \<and>
   formatCellValue (JObj [(js ''b'', JNum 2)]) (js ''a'') \<noteq> Inr (js ''""'')\<close>
  by (simp add: eval_defs)

subsection \<open>Arrays of primitives\<close>

lemma extract_from_no_property: "no_property v \<Longrightarrow> extract_from v p keys = keys"
  by (cases v) simp_all

lemma extract_items_no_property:
  "\<forall>x\<in>set items. no_property x \<Longrightarrow> extract_items items i pk keys = keys"
  by (induction items arbitrary: i keys) (simp_all add: extract_from_no_property)

lemma set_keys_add: "set (keys_add keys k) = insert k (set keys)"
  by (auto simp: keys_add_def)

lemma set_foldl_keys_add: "set (foldl keys_add keys ks) = set keys \<union> set ks"
  by (induction ks arbitrary: keys) (auto simp: set_keys_add)

lemma set_extract_from_string:
  "set (extract_from (JStr s) p keys) = set keys \<union> {p @ digits j | j. j < length s}"
  by (auto simp: set_foldl_keys_add)

lemma set_extract_items_strings:
  "set (extract_items (map JStr ss) i pk keys) =
   set keys \<union> {pk @ js ''['' @ digits (i + n) @ js ''].'' @ digits j | n j.
                 n < length ss \<and> j < length (ss ! n)}"
proof (induction ss arbitrary: i keys)
  case Nil
  show ?case by simp
next
  case (Cons s ss)
  have split: "{pk @ js ''['' @ digits (i + n) @ js ''].'' @ digits j | n j.
                 n < length (s # ss) \<and> j < length ((s # ss) ! n)} =
        {(pk @ js ''['' @ digits i @ js ''].'') @ digits j | j. j < length s} \<union>
        {pk @ js ''['' @ digits (Suc i + n) @ js ''].'' @ digits j | n j.
                 n < length ss \<and> j < length (ss ! n)}" (is "?A = ?B \<union> ?C")
  proof (intro equalityI subsetI)
    fix x assume "x \<in> ?A"
    then obtain n j where x: "x = pk @ js ''['' @ digits (i + n) @ js ''].'' @ digits j"
      and n: "n < length (s # ss)" and j: "j < length ((s # ss) ! n)" by blast
    show "x \<in> ?B \<union> ?C"
    proof (cases n)
      case 0
      with x j show ?thesis by auto
    next
      case (Suc m)
      with x n j have "x \<in> ?C" by auto
      then show ?thesis by blast
    qed
  next
    fix x assume "x \<in> ?B \<union> ?C"
    then show "x \<in> ?A"
    proof
      assume "x \<in> ?B"
      then obtain j where "x = (pk @ js ''['' @ digits i @ js ''].'') @ digits j" "j < length s"
        by blast
      then have "x = pk @ js ''['' @ digits (i + 0) @ js ''].'' @ digits j \<and>
          0 < length (s # ss) \<and> j < length ((s # ss) ! 0)" by simp
      then show ?thesis by blast
    next
      assume "x \<in> ?C"
      then obtain n j where "x = pk @ js ''['' @ digits (Suc i + n) @ js ''].'' @ digits j"
        "n < length ss" "j < length (ss ! n)" by blast
      then have "x = pk @ js ''['' @ digits (i + Suc n) @ js ''].'' @ digits j \<and>
          Suc n < length (s # ss) \<and> j < length ((s # ss) ! Suc n)" by simp
      then show ?thesis by blast
    qed
  qed
  have "set (extract_items (map JStr (s # ss)) i pk keys) =
        set (extract_from (JStr s) (pk @ js ''['' @ digits i @ js ''].'') keys) \<union> ?C"
    using Cons.IH [of "Suc i" "extract_from (JStr s) (pk @ js ''['' @ digits i @ js ''].'') keys"]
    by simp
  also have "\<dots> = set keys \<union> (?B \<union> ?C)"
    by (simp only: set_extract_from_string Un_assoc)
  finally show ?case by (simp only: split)
qed

text \<open>
  C3, as the code has it. The visit of a field \<open>f\<close> whose value is an array of
  numbers, booleans, \<^verbatim>\<open>null\<close> or \<^verbatim>\<open>undefined\<close> adds no key path at all. When the
  array holds strings, the key paths added are \<^verbatim>\<open>f[n].j\<close> for every index \<open>n\<close> of the
  array and every character index \<open>j\<close> of the string at \<open>n\<close>.
\<close>

theorem array_of_primitives_keys:
  "((\<forall>x\<in>set items. no_property x) \<longrightarrow> extract_visit f (JArr items) p keys = keys) \<and>
   set (extract_visit f (JArr (map JStr ss)) p keys) =
     set keys \<union> {p @ f @ js ''['' @ digits n @ js ''].'' @ digits j | n j.
                   n < length ss \<and> j < length (ss ! n)}"
  using set_extract_items_strings [of ss 0 "p @ f" keys]
  by (simp add: extract_items_no_property)

text \<open>The arrays \<^verbatim>\<open>[1, 2]\<close> and \<^verbatim>\<open>["x", "yz"]\<close> under the field \<^verbatim>\<open>tags\<close>.\<close>

theorem array_of_primitives_keys_witness:
  "extract_visit (js ''tags'') (JArr [JNum 1, JNum 2]) [] [] = [] \<and>
   js ''tags[1].1'' \<in> set (extract_visit (js ''tags'') (JArr (map JStr [js ''x'', js ''yz''])) [] [])"
proof -
  have a: "\<forall>x\<in>set [JNum 1, JNum 2]. no_property x" by simp
  have b: "js ''tags[1].1'' \<in> {[] @ js ''tags'' @ js ''['' @ digits n @ js ''].'' @ digits j | n j.
                   n < length [js ''x'', js ''yz''] \<and> j < length ([js ''x'', js ''yz''] ! n)}"
    by (rule CollectI, rule exI [of _ 1], rule exI [of _ 1]) (simp add: js_def digits.simps)
  show ?thesis
    using array_of_primitives_keys [of "[JNum 1, JNum 2]" "js ''tags''" "[]" "[]" "[js ''x'', js ''yz'']"] a b
    by simp
qed

text \<open>
  C3 as stated expects the key paths \<^verbatim>\<open>tags[0]\<close> and \<^verbatim>\<open>tags[1]\<close>. An array of
  numbers gives no key path, an array of strings gives paths with a character index,
  and a record with a shorter array makes the call fail.
\<close>

theorem array_of_primitives_counterexample:
  "extractUniqueKeys number_tags [] = Inr [] \<and>
   extractUniqueKeys string_tags [] = Inr [js ''tags[0].0'', js ''tags[1].0'', js ''tags[1].1''] \<and>
   fst (toCsv parse_sample new_service shorter_tags [] only_noDownload) = Inl TypeError"
  by (simp add: eval_defs)

subsection \<open>Invalid input\<close>

text \<open>
  C4. When the data argument is a string that is not valid JSON, or whose parse is
  not a non-null object or array, the second listing throws the invalid-JSON error and
  the first listing returns nothing; in both the document text of the service is
  empty and no text is returned or downloaded.
\<close>

theorem invalid_json_fails:
  assumes "parse str = None \<or> (\<exists>v. parse str = Some v \<and> \<not> (typeof_object v \<and> v \<noteq> JNull))"
  shows "toCsv parse s (JStr str) f c = (Inl InvalidJSON, s\<lparr>csv := []\<rparr>) \<and>
         toCsv1 parse s (JStr str) f c = (Inr Nothing, s\<lparr>csv := [], data := JNull\<rparr>)"
  using assms
  by (auto simp: toCsv_def toCsv1_def parseJson_def parseJson1_def Let_def)

text \<open>A text that does not parse, and the text \<^verbatim>\<open>5\<close>, which parses to a number.\<close>

theorem invalid_json_fails_witness:
  "toCsv parse_sample new_service (JStr (js ''{oops'')) [] no_config = (Inl InvalidJSON, new_service) \<and>
   toCsv parse_sample new_service (JStr (js ''5'')) [] no_config = (Inl InvalidJSON, new_service) \<and>
   toCsv1 parse_sample new_service (JStr (js ''5'')) [] no_config =
     (Inr Nothing, new_service\<lparr>data := JNull\<rparr>)"
proof -
  have a: "parse_sample (js ''{oops'') = None \<or>
      (\<exists>v. parse_sample (js ''{oops'') = Some v \<and> \<not> (typeof_object v \<and> v \<noteq> JNull))"
    by (simp add: parse_sample_def js_def)
  have b: "parse_sample (js ''5'') = None \<or>
      (\<exists>v. parse_sample (js ''5'') = Some v \<and> \<not> (typeof_object v \<and> v \<noteq> JNull))"
    by (simp add: parse_sample_def js_def)
  show ?thesis
    using invalid_json_fails [of parse_sample "js ''{oops''" new_service "[]" no_config]
      invalid_json_fails [of parse_sample "js ''5''" new_service "[]" no_config] a b
    by (simp add: new_service_def)
qed

subsection \<open>The key path set\<close>

lemma keys_add_extends: "\<exists>zs. keys_add keys k = keys @ zs"
  by (simp add: keys_add_def)

lemma foldl_keys_add_extends: "\<exists>zs. foldl keys_add keys ks = keys @ zs"
proof (induction ks arbitrary: keys)
  case Nil
  show ?case by simp
next
  case (Cons k ks)
  obtain zs where a: "keys_add keys k = keys @ zs" using keys_add_extends by blast
  obtain zs' where "foldl keys_add (keys_add keys k) ks = keys_add keys k @ zs'"
    using Cons.IH by blast
  with a show ?case by simp
qed

lemma distinct_keys_add: "distinct keys \<Longrightarrow> distinct (keys_add keys k)"
  by (simp add: keys_add_def)

lemma distinct_foldl_keys_add: "distinct keys \<Longrightarrow> distinct (foldl keys_add keys ks)"
  by (induction ks arbitrary: keys) (simp_all add: distinct_keys_add)

lemma extends_trans:
  "\<exists>zs. b = a @ zs \<Longrightarrow> \<exists>zs. c = b @ zs \<Longrightarrow> \<exists>zs. (c::'a list) = a @ zs"
  by auto

lemma extract_extends:
  "\<exists>zs. extract_from v p keys = keys @ zs"
  "\<exists>zs. extract_visit k v p keys = keys @ zs"
  "\<exists>zs. extract_props ps p keys = keys @ zs"
  "\<exists>zs. extract_elems xs i p keys = keys @ zs"
  "\<exists>zs. extract_items items i pk keys = keys @ zs"
proof (induction v p keys and k v p keys and ps p keys and xs i p keys and items i pk keys
    rule: extract_from_extract_visit_extract_props_extract_elems_extract_items.induct)
  case (3 s p keys)
  show ?case using foldl_keys_add_extends by simp
next
  case (16 k v ps p keys)
  show ?case using extends_trans [OF "16.IH"(1) "16.IH"(2)] by simp
next
  case (18 x xs i p keys)
  show ?case using extends_trans [OF "18.IH"(1) "18.IH"(2)] by simp
next
  case (20 item items i pk keys)
  show ?case using extends_trans [OF "20.IH"(1) "20.IH"(2)] by simp
qed (simp_all add: keys_add_extends)

lemma extract_distinct:
  "distinct keys \<Longrightarrow> distinct (extract_from v p keys)"
  "distinct keys \<Longrightarrow> distinct (extract_visit k v p keys)"
  "distinct keys \<Longrightarrow> distinct (extract_props ps p keys)"
  "distinct keys \<Longrightarrow> distinct (extract_elems xs i p keys)"
  "distinct keys \<Longrightarrow> distinct (extract_items items i pk keys)"
  by (induction v p keys and k v p keys and ps p keys and xs i p keys and items i pk keys
      rule: extract_from_extract_visit_extract_props_extract_elems_extract_items.induct)
    (simp_all add: distinct_keys_add distinct_foldl_keys_add)

lemma extract_covers:
  "set keys \<union> set (record_paths v p) \<subseteq> set (extract_from v p keys)"
  "set keys \<union> set (field_paths k v p) \<subseteq> set (extract_visit k v p keys)"
  "set keys \<union> set (fields_paths ps p) \<subseteq> set (extract_props ps p keys)"
  "set keys \<subseteq> set (extract_elems xs i p keys)"
  "set keys \<union> set (element_paths items i pk) \<subseteq> set (extract_items items i pk keys)"
proof (induction v p keys and k v p keys and ps p keys and xs i p keys and items i pk keys
    rule: extract_from_extract_visit_extract_props_extract_elems_extract_items.induct)
  case (16 k v ps p keys)
  then show ?case by auto
next
  case (18 x xs i p keys)
  then show ?case by auto
next
  case (20 item items i pk keys)
  then show ?case by auto
qed (auto simp: set_keys_add set_foldl_keys_add)

lemma fold_extract_extends:
  "\<exists>zs. fold (\<lambda>item keys. extract_from item p keys) records keys = keys @ zs"
proof (induction records arbitrary: keys)
  case Nil
  show ?case by simp
next
  case (Cons r records)
  show ?case
    using extends_trans [OF extract_extends(1) [where v = r and p = p and keys = keys] Cons.IH [where keys = "extract_from r p keys"]]
    by simp
qed

lemma fold_extract_distinct:
  "distinct keys \<Longrightarrow> distinct (fold (\<lambda>item keys. extract_from item p keys) records keys)"
  by (induction records arbitrary: keys) (simp_all add: extract_distinct)

lemma fold_extract_covers:
  "set keys \<union> (\<Union>r\<in>set records. set (record_paths r p))
     \<subseteq> set (fold (\<lambda>item keys. extract_from item p keys) records keys)"
proof (induction records arbitrary: keys)
  case Nil
  show ?case by simp
next
  case (Cons r records)
  show ?case
    using Cons.IH [where keys = "extract_from r p keys"] extract_covers(1) [where keys = keys and v = r and p = p]
    by auto
qed

lemma record_paths_are_leaf_paths:
  "set (record_paths v p) \<subseteq> set (leaf_paths v p)"
  "set (field_paths k v p) \<subseteq> set (leaf_field_paths k v p)"
  "set (fields_paths ps p) \<subseteq> set (leaf_fields_paths ps p)"
  "set (element_paths items i pk) \<subseteq> set (leaf_element_paths items i pk)"
proof (induction v p and k v p and ps p and items i pk
    rule: record_paths_field_paths_fields_paths_element_paths.induct)
  case (9 item items i pk)
  then show ?case by (cases item) auto
qed auto

text \<open>
  C7, as the code has it. For every collection of records, the key path set is a
  superset of those leaf field paths of each record that end in a field of a record
  (nested objects flattened with the prefix \<^verbatim>\<open>field.\<close>, arrays of records with the
  prefix \<^verbatim>\<open>field[index].\<close>); these are leaf field paths of the record. The key path
  set has no duplicates, and it keeps the order of first discovery over the whole
  scan: the key path set of any first part of the collection is a first part of the
  key path set of the whole collection.
\<close>

theorem key_path_set_complete:
  "\<exists>keys. extractUniqueKeys (JArr records) [] = Inr keys \<and>
     (\<forall>r\<in>set records. set (record_paths r []) \<subseteq> set keys \<and>
                        set (record_paths r []) \<subseteq> set (leaf_paths r [])) \<and>
     distinct keys \<and>
     (\<forall>rs1 rs2. records = rs1 @ rs2 \<longrightarrow>
        (\<exists>ks1 ks2. extractUniqueKeys (JArr rs1) [] = Inr ks1 \<and> keys = ks1 @ ks2))"
proof -
  let ?f = "\<lambda>item keys. extract_from item [] keys"
  have "\<forall>r\<in>set records. set (record_paths r []) \<subseteq> set (fold ?f records [])"
    using fold_extract_covers [where keys = "[]" and records = records and p = "[]"] by auto
  then have cover: "\<forall>r\<in>set records. set (record_paths r []) \<subseteq> set (fold ?f records []) \<and>
                        set (record_paths r []) \<subseteq> set (leaf_paths r [])"
    using record_paths_are_leaf_paths(1) by blast
  have dist: "distinct (fold ?f records [])"
    by (simp add: fold_extract_distinct)
  have order: "\<forall>rs1 rs2. records = rs1 @ rs2 \<longrightarrow>
        (\<exists>ks1 ks2. extractUniqueKeys (JArr rs1) [] = Inr ks1 \<and> fold ?f records [] = ks1 @ ks2)"
  proof (intro allI impI)
    fix rs1 rs2 assume "records = rs1 @ rs2"
    then have "fold ?f records [] = fold ?f rs2 (fold ?f rs1 [])" by simp
    with fold_extract_extends [where p = "[]" and records = rs2 and keys = "fold ?f rs1 []"]
    show "\<exists>ks1 ks2. extractUniqueKeys (JArr rs1) [] = Inr ks1 \<and> fold ?f records [] = ks1 @ ks2"
      by (auto simp: extractUniqueKeys_def)
  qed
  have keys: "extractUniqueKeys (JArr records) [] = Inr (fold ?f records [])"
    by (simp add: extractUniqueKeys_def)
  show ?thesis
    by (intro exI conjI, rule keys, rule cover, rule dist, rule order)
qed

text \<open>
  The records \<^verbatim>\<open>{name:"jo", addr:{city:"LA"}}\<close> and
  \<^verbatim>\<open>{user:{todos:[{id:1},{id:2}]}}\<close>.
\<close>

theorem key_path_set_complete_witness:
  "extractUniqueKeys (JArr nested_records) [] =
     Inr [js ''name'', js ''addr.city'', js ''user.todos[0].id'', js ''user.todos[1].id''] \<and>
   set (record_paths (nested_records ! 1) []) \<subseteq>
     set [js ''name'', js ''addr.city'', js ''user.todos[0].id'', js ''user.todos[1].id''] \<and>
   set (record_paths (nested_records ! 1) []) \<subseteq> set (leaf_paths (nested_records ! 1) []) \<and>
   distinct [js ''name'', js ''addr.city'', js ''user.todos[0].id'', js ''user.todos[1].id'']"
proof -
  have eval: "extractUniqueKeys (JArr nested_records) [] =
     Inr [js ''name'', js ''addr.city'', js ''user.todos[0].id'', js ''user.todos[1].id'']"
    by (simp add: eval_defs more_defs)
  have mem: "nested_records ! 1 \<in> set nested_records"
    by (simp add: nested_records_def)
  from key_path_set_complete [of nested_records] eval mem
  show ?thesis by auto
qed

text \<open>
  C7 as stated takes every leaf field path, so for the record
  \<^verbatim>\<open>{id:7, tags:[1,2]}\<close> also \<^verbatim>\<open>tags[0]\<close> and \<^verbatim>\<open>tags[1]\<close>. The key path set of
  that record is \<^verbatim>\<open>id\<close> alone: it is not a superset of the record's leaf field
  paths.
\<close>

theorem key_path_set_complete_counterexample:
  "extractUniqueKeys (JArr [id_and_tags]) [] = Inr [js ''id''] \<and>
   leaf_paths id_and_tags [] = [js ''id'', js ''tags[0]'', js ''tags[1]''] \<and>
   \<not> set (leaf_paths id_and_tags []) \<subseteq> set [js ''id'']"
  by (simp add: eval_defs more_defs)

subsection \<open>No state is carried from one call to the next\<close>

lemma service_overwritten:
  "s\<lparr>csv := t, data := d, options := opts\<rparr> = \<lparr>data = d, options = opts, csv = t\<rparr>"
  by (cases s) simp

lemma assemble_state_independent:
  "assemble fa c (s\<lparr>csv := [], data := d\<rparr>) = assemble fa c (s'\<lparr>csv := [], data := d\<rparr>)"
  unfolding assemble_def by (simp only: service_overwritten)

lemma assemble1_state_independent:
  "assemble1 fa c (s\<lparr>csv := [], data := d\<rparr>) = assemble1 fa c (s'\<lparr>csv := [], data := d\<rparr>)"
  unfolding assemble1_def by (simp only: service_overwritten)

lemma toCsv_fst_state_independent:
  "fst (toCsv parse s d fa c) = fst (toCsv parse s' d fa c)"
proof (cases "if \<not> typeof_object d then parseJson parse d else Inr d")
  case (Inl e)
  then show ?thesis by (simp add: toCsv_def Let_def)
next
  case (Inr d')
  show ?thesis
  proof (cases "truthy d'")
    case True
    with Inr show ?thesis
      using assemble_state_independent [where s = s and s' = s' and d = d' and fa = fa and c = c]
      by (simp add: toCsv_def Let_def)
  next
    case False
    with Inr show ?thesis by (simp add: toCsv_def Let_def)
  qed
qed

lemma toCsv1_fst_state_independent:
  "fst (toCsv1 parse s d fa c) = fst (toCsv1 parse s' d fa c)"
  using assemble1_state_independent [where s = s and s' = s' and fa = fa and c = c]
  by (simp add: toCsv1_def Let_def)

text \<open>
  C8. For a fixed input, file name and configuration, what a call gives its caller
  does not depend on the state the service is in before the call, in either listing;
  so a second call, made in the state the first one left, gives the same result. The
  key path set is a function of the data alone (\<open>extractUniqueKeys\<close> reads no state),
  and every function of the model is deterministic.
\<close>

theorem toCsv_deterministic:
  "fst (toCsv parse s d fa c) = fst (toCsv parse s' d fa c) \<and>
   fst (toCsv1 parse s d fa c) = fst (toCsv1 parse s' d fa c) \<and>
   fst (toCsv parse (snd (toCsv parse s d fa c)) d fa c) = fst (toCsv parse s d fa c) \<and>
   fst (toCsv1 parse (snd (toCsv1 parse s d fa c)) d fa c) = fst (toCsv1 parse s d fa c)"
  using toCsv_fst_state_independent [of parse s d fa c s']
    toCsv1_fst_state_independent [of parse s d fa c s']
    toCsv_fst_state_independent [of parse "snd (toCsv parse s d fa c)" d fa c s]
    toCsv1_fst_state_independent [of parse "snd (toCsv1 parse s d fa c)" d fa c s]
  by simp

text \<open>A new service and one that an earlier call has used.\<close>

theorem toCsv_deterministic_witness:
  "fst (toCsv parse_sample new_service flat_records [] only_noDownload) =
     fst (toCsv parse_sample used_service flat_records [] only_noDownload) \<and>
   fst (toCsv1 parse_sample new_service flat_records [] only_noDownload) =
     fst (toCsv1 parse_sample used_service flat_records [] only_noDownload) \<and>
   fst (toCsv parse_sample
          (snd (toCsv parse_sample new_service flat_records [] only_noDownload))
          flat_records [] only_noDownload) =
     fst (toCsv parse_sample new_service flat_records [] only_noDownload) \<and>
   fst (toCsv1 parse_sample
          (snd (toCsv1 parse_sample new_service flat_records [] only_noDownload))
          flat_records [] only_noDownload) =
     fst (toCsv1 parse_sample new_service flat_records [] only_noDownload)"
  by (rule toCsv_deterministic)

subsection \<open>The structure of the document\<close>

lemma row_cells1_eq: "row_cells1 obj keys = row_cells obj keys"
  by (induction keys) (simp_all add: formatCellValue_unconditional split: sum.splits)

lemma row_cells_aligned:
  "row_cells obj keys = Inr row \<Longrightarrow>
   list_all2 (\<lambda>key cell. formatCellValue obj key = Inr cell) keys row"
  by (induction keys arbitrary: row) (auto split: sum.splits)

lemma options_after_merge:
  "(if fa \<noteq> []
    then (s\<lparr>options := spread ConfigDefaults c\<rparr>)
           \<lparr>options := (options (s\<lparr>options := spread ConfigDefaults c\<rparr>))\<lparr>filename := Some fa\<rparr>\<rparr>
    else s\<lparr>options := spread ConfigDefaults c\<rparr>) = s\<lparr>options := options_in_force fa c\<rparr>"
  by (cases s) (simp add: options_in_force_def filename_in_force_def spread_def ConfigDefaults_def
      split: option.splits)

lemma prefix_state:
  "addByteOrderMarkAndTitle s = s\<lparr>csv := csv s @ prefix_text (options s)\<rparr>"
  by (cases s) (simp add: addByteOrderMarkAndTitle_def prefix_text_def Let_def)

lemma prefix_after_merge:
  "addByteOrderMarkAndTitle (s\<lparr>options := opts\<rparr>) =
   s\<lparr>options := opts, csv := csv s @ prefix_text opts\<rparr>"
  by (simp add: prefix_state)

lemma generateCsvRows_done:
  "generateCsvRows objs keys s = (None, s') \<Longrightarrow>
   \<exists>rows. aligned objs keys rows \<and>
     s' = s\<lparr>csv := csv s @ concat (map (\<lambda>row. join_with (fieldSeparator (options s)) row @ END_OF_LINE) rows)\<rparr>"
proof (induction objs arbitrary: s)
  case Nil
  then show ?case by (cases s) (auto simp: aligned_def)
next
  case (Cons obj objs)
  from Cons.prems obtain row where row: "row_cells obj keys = Inr row"
    and rest: "generateCsvRows objs keys
        (s\<lparr>csv := csv s @ join_with (fieldSeparator (options s)) row @ END_OF_LINE\<rparr>) = (None, s')"
    by (auto simp: generateCsvRow_def split: sum.splits)
  from Cons.IH [OF rest] obtain rows where al: "aligned objs keys rows"
    and s': "s' = s\<lparr>csv := (csv s @ join_with (fieldSeparator (options s)) row @ END_OF_LINE) @
        concat (map (\<lambda>row. join_with (fieldSeparator (options s)) row @ END_OF_LINE) rows)\<rparr>"
    by (cases s) auto
  have "aligned (obj # objs) keys (row # rows)"
    using al row_cells_aligned [OF row] by (simp add: aligned_def)
  moreover have "s' = s\<lparr>csv := csv s @
      concat (map (\<lambda>row. join_with (fieldSeparator (options s)) row @ END_OF_LINE) (row # rows))\<rparr>"
    using s' by simp
  ultimately show ?case by blast
qed

lemma assemble_document:
  assumes "assemble fa c s1 = (Inr out, s')"
  shows "\<exists>objs keys rows. data s1 = JArr objs \<and> extractUniqueKeys (data s1) [] = Inr keys \<and>
     aligned objs keys rows \<and>
     s' = s1\<lparr>options := options_in_force fa c,
             csv := csv s1 @ document_text (options_in_force fa c) keys rows\<rparr> \<and>
     out = (if flag (noDownload (options_in_force fa c)) then Returned (csv s') else downloadCsvFile s')"
proof -
  let ?o = "options_in_force fa c"
  define s4 where "s4 = s1\<lparr>options := ?o, csv := csv s1 @ prefix_text ?o\<rparr>"
  have s4: "data s4 = data s1" "options s4 = ?o" "csv s4 = csv s1 @ prefix_text ?o"
    by (simp_all add: s4_def)
  have run: "(case extractUniqueKeys (data s4) [] of
       Inl e \<Rightarrow> (Inl e, s4)
     | Inr keys \<Rightarrow>
         (case iterate (data (generateCsvHeader keys s4)) of
            Inl e \<Rightarrow> (Inl e, generateCsvHeader keys s4)
          | Inr objs \<Rightarrow>
              (case generateCsvRows objs keys (generateCsvHeader keys s4) of
                 (Some e, s6) \<Rightarrow> (Inl e, s6)
               | (None, s6) \<Rightarrow>
                   if csv s6 = [] then (Inl InvalidData, s6)
                   else if flag (noDownload (options s6)) then (Inr (Returned (csv s6)), s6)
                   else (Inr (downloadCsvFile s6), s6)))) = (Inr out, s')"
    using assms unfolding assemble_def Let_def options_after_merge prefix_after_merge s4_def
    by simp
  from run obtain keys where keys: "extractUniqueKeys (data s1) [] = Inr keys"
    by (auto simp: s4 split: sum.splits)
  then obtain objs where objs: "data s1 = JArr objs"
    by (auto simp: extractUniqueKeys_def split: jsval.splits)
  define s5 where "s5 = generateCsvHeader keys s4"
  have s5: "data s5 = data s1" "options s5 = ?o"
    "csv s5 = csv s1 @ prefix_text ?o @ join_with (fieldSeparator ?o) keys @ END_OF_LINE"
    by (simp_all add: s5_def generateCsvHeader_def s4)
  from run keys objs obtain s6 where loop: "generateCsvRows objs keys s5 = (None, s6)"
    and fin: "(if csv s6 = [] then (Inl InvalidData, s6)
               else if flag (noDownload (options s6)) then (Inr (Returned (csv s6)), s6)
               else (Inr (downloadCsvFile s6), s6)) = (Inr out, s')"
    by (auto simp: s4 s5 s5_def [symmetric] iterate_def split: prod.splits option.splits)
  from generateCsvRows_done [OF loop] obtain rows where al: "aligned objs keys rows"
    and s6: "s6 = s5\<lparr>csv := csv s5 @
        concat (map (\<lambda>row. join_with (fieldSeparator (options s5)) row @ END_OF_LINE) rows)\<rparr>"
    by blast
  have s6': "s6 = s1\<lparr>options := ?o, csv := csv s1 @ document_text ?o keys rows\<rparr>"
    unfolding s6 s5 by (simp add: s5_def s4_def generateCsvHeader_def document_text_def)
  from fin have "s' = s6"
    and "out = (if flag (noDownload (options s6)) then Returned (csv s6) else downloadCsvFile s6)"
    by (auto split: if_splits)
  with keys objs al s6' show ?thesis by auto
qed

lemma csvData_rows_done:
  "csvData_rows objs keys sep = Inr lines \<Longrightarrow>
   \<exists>rows. aligned objs keys rows \<and> lines = map (join_with sep) rows"
proof (induction objs arbitrary: lines)
  case Nil
  then show ?case by (simp add: aligned_def)
next
  case (Cons obj objs)
  from Cons.prems obtain row rest where row: "row_cells obj keys = Inr row"
    and rest: "csvData_rows objs keys sep = Inr rest" and lines: "lines = join_with sep row # rest"
    by (auto simp: row_cells1_eq split: sum.splits)
  from Cons.IH [OF rest] obtain rows where al: "aligned objs keys rows"
    and r: "rest = map (join_with sep) rows" by blast
  have "aligned (obj # objs) keys (row # rows)"
    using al row_cells_aligned [OF row] by (simp add: aligned_def)
  moreover have "lines = map (join_with sep) (row # rows)"
    using lines r by simp
  ultimately show ?case by blast
qed

lemma assemble1_document:
  assumes "assemble1 fa c s1 = (Inr out, s')"
  shows "\<exists>objs keys rows. data s1 = JArr objs \<and> extractUniqueKeys (data s1) [] = Inr keys \<and>
     aligned objs keys rows \<and>
     s' = s1\<lparr>options := options_in_force fa c,
             csv := csv s1 @ document_text1 (options_in_force fa c) keys rows\<rparr> \<and>
     out = (if csv s' = [] then Nothing
            else if flag (noDownload (options_in_force fa c)) then Returned (csv s')
            else downloadCsvFile s')"
proof -
  let ?o = "options_in_force fa c"
  define s4 where "s4 = s1\<lparr>options := ?o, csv := csv s1 @ prefix_text ?o\<rparr>"
  have s4: "data s4 = data s1" "options s4 = ?o" "csv s4 = csv s1 @ prefix_text ?o"
    by (simp_all add: s4_def)
  define s5 where "s5 = (\<lambda>keys lines. s4\<lparr>csv := csv s4 @ join END_OF_LINE
                          (join_with (fieldSeparator (options s4)) keys # lines)\<rparr>)"
  have run: "(case extractUniqueKeys (data s4) [] of
       Inl e \<Rightarrow> (Inl e, s4)
     | Inr keys \<Rightarrow>
         (case iterate (data s4) of
            Inl e \<Rightarrow> (Inl e, s4)
          | Inr objs \<Rightarrow>
              (case csvData_rows objs keys (fieldSeparator (options s4)) of
                 Inl e \<Rightarrow> (Inl e, s4)
               | Inr lines \<Rightarrow>
                   if csv (s5 keys lines) = [] then (Inr Nothing, s5 keys lines)
                   else if flag (noDownload (options (s5 keys lines)))
                   then (Inr (Returned (csv (s5 keys lines))), s5 keys lines)
                   else (Inr (downloadCsvFile (s5 keys lines)), s5 keys lines)))) = (Inr out, s')"
    using assms unfolding assemble1_def Let_def options_after_merge prefix_after_merge s5_def s4_def
    by simp
  from run obtain keys where keys: "extractUniqueKeys (data s1) [] = Inr keys"
    by (auto simp: s4 split: sum.splits)
  then obtain objs where objs: "data s1 = JArr objs"
    by (auto simp: extractUniqueKeys_def split: jsval.splits)
  obtain lines where loop: "csvData_rows objs keys (fieldSeparator ?o) = Inr lines"
  proof (cases "csvData_rows objs keys (fieldSeparator ?o)")
    case (Inl e)
    with run keys objs show ?thesis by (simp add: s4 iterate_def)
  next
    case (Inr lines)
    then show ?thesis by (rule that)
  qed
  have steps: "extractUniqueKeys (data s4) [] = Inr keys" "iterate (data s4) = Inr objs"
    "csvData_rows objs keys (fieldSeparator (options s4)) = Inr lines"
    using keys objs loop by (simp_all add: s4 iterate_def)
  from run
  have fin: "(if csv (s5 keys lines) = [] then (Inr Nothing, s5 keys lines)
               else if flag (noDownload (options (s5 keys lines)))
               then (Inr (Returned (csv (s5 keys lines))), s5 keys lines)
               else (Inr (downloadCsvFile (s5 keys lines)), s5 keys lines)) =
              (Inr out :: error + outcome, s')"
    by (simp only: steps sum.case)
  from csvData_rows_done [OF loop] obtain rows where al: "aligned objs keys rows"
    and lines: "lines = map (join_with (fieldSeparator ?o)) rows"
    by blast
  have s5': "s5 keys lines = s1\<lparr>options := ?o, csv := csv s1 @ document_text1 ?o keys rows\<rparr>"
    by (simp add: s5_def s4_def lines document_text1_def)
  from fin have "s' = s5 keys lines"
    and "out = (if csv (s5 keys lines) = [] then Nothing
                else if flag (noDownload (options (s5 keys lines))) then Returned (csv (s5 keys lines))
                else downloadCsvFile (s5 keys lines))"
    by (auto split: if_splits)
  with keys objs al s5' show ?thesis by auto
qed

lemma toCsv_document:
  assumes "toCsv parse s d fa c = (Inr out, s')" and "out \<noteq> Nothing"
  shows "\<exists>objs keys rows. data s' = JArr objs \<and> extractUniqueKeys (data s') [] = Inr keys \<and>
     aligned objs keys rows \<and> options s' = options_in_force fa c \<and>
     csv s' = document_text (options s') keys rows \<and>
     out = (if flag (noDownload (options s')) then Returned (csv s') else downloadCsvFile s')"
proof -
  from assms obtain d' where run: "assemble fa c (s\<lparr>csv := [], data := d'\<rparr>) = (Inr out, s')"
    by (auto simp: toCsv_def Let_def split: sum.splits if_splits)
  from assemble_document [OF run] show ?thesis by auto
qed

lemma toCsv1_document:
  assumes "toCsv1 parse s d fa c = (Inr out, s')" and "out \<noteq> Nothing"
  shows "\<exists>objs keys rows. data s' = JArr objs \<and> extractUniqueKeys (data s') [] = Inr keys \<and>
     aligned objs keys rows \<and> options s' = options_in_force fa c \<and>
     csv s' = document_text1 (options s') keys rows \<and>
     out = (if flag (noDownload (options s')) then Returned (csv s') else downloadCsvFile s')"
proof -
  from assms obtain d' where run: "assemble1 fa c (s\<lparr>csv := [], data := d'\<rparr>) = (Inr out, s')"
    by (auto simp: toCsv1_def Let_def split: if_splits)
  from assemble1_document [OF run] assms(2) show ?thesis by (auto split: if_splits)
qed

lemma aligned_lengths:
  "aligned objs keys rows \<Longrightarrow> length rows = length objs \<and> (\<forall>row\<in>set rows. length row = length keys)"
  unfolding aligned_def
  by (induction objs rows rule: list_all2_induct) (auto dest: list_all2_lengthD)

text \<open>
  C6. In every call that produces a document, the key path set is computed once from
  the data and the document is laid out from that one list: the header joins the key
  paths, and there is one row per record whose cells are the formatted values of the
  same key paths in the same order. So every row has exactly as many cells as there
  are key paths, which is the number of cells of the header. This holds in both
  listings.
\<close>

theorem rows_aligned_with_header:
  "(toCsv parse s d fa c = (Inr out, s') \<and> out \<noteq> Nothing \<longrightarrow>
      (\<exists>objs keys rows. data s' = JArr objs \<and> extractUniqueKeys (data s') [] = Inr keys \<and>
         aligned objs keys rows \<and> length rows = length objs \<and>
         (\<forall>row\<in>set rows. length row = length keys) \<and>
         document out = Some (document_text (options s') keys rows))) \<and>
   (toCsv1 parse s d fa c = (Inr out1, s1') \<and> out1 \<noteq> Nothing \<longrightarrow>
      (\<exists>objs keys rows. data s1' = JArr objs \<and> extractUniqueKeys (data s1') [] = Inr keys \<and>
         aligned objs keys rows \<and> length rows = length objs \<and>
         (\<forall>row\<in>set rows. length row = length keys) \<and>
         document out1 = Some (document_text1 (options s1') keys rows)))"
proof (intro conjI impI)
  assume a: "toCsv parse s d fa c = (Inr out, s') \<and> out \<noteq> Nothing"
  from toCsv_document [of parse s d fa c out s'] a
  obtain objs keys rows where f: "data s' = JArr objs" "extractUniqueKeys (data s') [] = Inr keys"
    "aligned objs keys rows" "csv s' = document_text (options s') keys rows"
    "out = (if flag (noDownload (options s')) then Returned (csv s') else downloadCsvFile s')"
    by blast
  have "document out = Some (document_text (options s') keys rows)"
    using f(4,5) by (simp add: downloadCsvFile_def)
  with f aligned_lengths [OF f(3)]
  show "\<exists>objs keys rows. data s' = JArr objs \<and> extractUniqueKeys (data s') [] = Inr keys \<and>
         aligned objs keys rows \<and> length rows = length objs \<and>
         (\<forall>row\<in>set rows. length row = length keys) \<and>
         document out = Some (document_text (options s') keys rows)"
    by blast
next
  assume a: "toCsv1 parse s d fa c = (Inr out1, s1') \<and> out1 \<noteq> Nothing"
  from toCsv1_document [of parse s d fa c out1 s1'] a
  obtain objs keys rows where f: "data s1' = JArr objs" "extractUniqueKeys (data s1') [] = Inr keys"
    "aligned objs keys rows" "csv s1' = document_text1 (options s1') keys rows"
    "out1 = (if flag (noDownload (options s1')) then Returned (csv s1') else downloadCsvFile s1')"
    by blast
  have "document out1 = Some (document_text1 (options s1') keys rows)"
    using f(4,5) by (simp add: downloadCsvFile_def)
  with f aligned_lengths [OF f(3)]
  show "\<exists>objs keys rows. data s1' = JArr objs \<and> extractUniqueKeys (data s1') [] = Inr keys \<and>
         aligned objs keys rows \<and> length rows = length objs \<and>
         (\<forall>row\<in>set rows. length row = length keys) \<and>
         document out1 = Some (document_text1 (options s1') keys rows)"
    by blast
qed

text \<open>The flat records of the first scenario, in both listings.\<close>

theorem rows_aligned_with_header_witness:
  "(\<exists>objs keys rows. flat_records = JArr objs \<and> extractUniqueKeys flat_records [] = Inr keys \<and>
     aligned objs keys rows \<and> length rows = length objs \<and>
     (\<forall>row\<in>set rows. length row = length keys) \<and>
     Some flat_document = Some (document_text (options_in_force [] only_noDownload) keys rows)) \<and>
   (\<exists>objs keys rows. flat_records = JArr objs \<and> extractUniqueKeys flat_records [] = Inr keys \<and>
     aligned objs keys rows \<and> length rows = length objs \<and>
     (\<forall>row\<in>set rows. length row = length keys) \<and>
     Some flat_document1 = Some (document_text1 (options_in_force [] only_noDownload) keys rows))"
proof -
  let ?s = "\<lparr>data = flat_records, options = options_in_force [] only_noDownload, csv = flat_document\<rparr>"
  let ?s1 = "\<lparr>data = flat_records, options = options_in_force [] only_noDownload, csv = flat_document1\<rparr>"
  have run: "toCsv parse_sample new_service flat_records [] only_noDownload =
      (Inr (Returned flat_document), ?s) \<and> Returned flat_document \<noteq> Nothing"
    by (simp add: eval_defs more_defs)
  have run1: "toCsv1 parse_sample new_service flat_records [] only_noDownload =
      (Inr (Returned flat_document1), ?s1) \<and> Returned flat_document1 \<noteq> Nothing"
    by (simp add: eval_defs more_defs)
  from rows_aligned_with_header [of parse_sample new_service flat_records "[]" only_noDownload
      "Returned flat_document" ?s "Returned flat_document1" ?s1] run run1
  show ?thesis by simp
qed

subsection \<open>The header line\<close>








subsection \<open>The file name\<close>



end
